theory Spec2Isabelle
  imports Main
begin

section \<open>Values of the host language\<close>

text \<open>
  A string of the program is modelled as the list of its UTF-8 bytes, a \<^typ>\<open>string\<close>.
  \<open>trim\<close> removes all the white space of the language, ASCII or not; \<open>toLowerCase\<close> maps
  the letters \<open>A\<close> to \<open>Z\<close> and leaves every other byte as it is.

  A thrown value is an \<open>exn\<close>: an \<open>Error\<close> with its message, a filesystem error with its
  \<open>code\<close>, or one of the built-in errors raised by the runtime.
\<close>

datatype exn =
    Error string
  | ErrnoException string
  | SyntaxError
  | TypeError

text \<open>
  A cell of a query result, as sql.js hands it over:
  \<open>string | number | Uint8Array | null\<close>. Numbers are the integers.
\<close>

datatype sqlvalue =
    SqlNull
  | SqlString string
  | SqlNumber int
  | SqlBytes "nat list"

text \<open>One element of the array returned by \<open>Database.exec\<close>.\<close>

record QueryExecResult =
  columns :: "string list"
  values_of :: "sqlvalue list list"

text \<open>
  An open database is what \<open>exec\<close> answers to each SQL text: it throws, or it returns
  the list of result sets (sql.js returns no result set for a statement without rows).
\<close>

type_synonym Database = "string \<Rightarrow> exn + QueryExecResult list"

record TableInfo =
  tableName :: string
  idColumn :: string
  titleColumn :: string
  authorColumn :: "string option"
  abbrevColumn :: "string option"

record ResourceRow =
  id_of :: string
  title :: string
  author :: "string option"
  abbrev :: "string option"

subsection \<open>Strings\<close>

text \<open>
  The white space and the line terminators that \<open>String.prototype.trim\<close> removes, each as
  its UTF-8 bytes: U+0009 to U+000D, U+0020, U+00A0, U+1680, U+2000 to U+200A, U+2028,
  U+2029, U+202F, U+205F, U+3000 and U+FEFF.
\<close>

definition WhiteSpace :: "string list" where
  "WhiteSpace =
     [[CHR 0x09], [CHR 0x0A], [CHR 0x0B], [CHR 0x0C], [CHR 0x0D], [CHR 0x20],
      [CHR 0xC2, CHR 0xA0],
      [CHR 0xE1, CHR 0x9A, CHR 0x80],
      [CHR 0xE2, CHR 0x80, CHR 0x80], [CHR 0xE2, CHR 0x80, CHR 0x81],
      [CHR 0xE2, CHR 0x80, CHR 0x82], [CHR 0xE2, CHR 0x80, CHR 0x83],
      [CHR 0xE2, CHR 0x80, CHR 0x84], [CHR 0xE2, CHR 0x80, CHR 0x85],
      [CHR 0xE2, CHR 0x80, CHR 0x86], [CHR 0xE2, CHR 0x80, CHR 0x87],
      [CHR 0xE2, CHR 0x80, CHR 0x88], [CHR 0xE2, CHR 0x80, CHR 0x89],
      [CHR 0xE2, CHR 0x80, CHR 0x8A],
      [CHR 0xE2, CHR 0x80, CHR 0xA8], [CHR 0xE2, CHR 0x80, CHR 0xA9],
      [CHR 0xE2, CHR 0x80, CHR 0xAF],
      [CHR 0xE2, CHR 0x81, CHR 0x9F],
      [CHR 0xE3, CHR 0x80, CHR 0x80],
      [CHR 0xEF, CHR 0xBB, CHR 0xBF]]"

text \<open>Removes from the front of \<open>s\<close> every leading occurrence of one of the \<open>marks\<close>.\<close>

function stripLeading :: "string list \<Rightarrow> string \<Rightarrow> string" where
  "stripLeading marks s =
     (case find (\<lambda>m. m \<noteq> [] \<and> take (length m) s = m) marks of
        None \<Rightarrow> s
      | Some m \<Rightarrow> stripLeading marks (drop (length m) s))"
  by pat_completeness auto
termination
proof (relation "measure (\<lambda>(marks, s). length s)")
  show "wf (measure (\<lambda>(marks, s). length s))" by simp
next
  fix marks :: "string list" and s m :: string
  assume "find (\<lambda>m. m \<noteq> [] \<and> take (length m) s = m) marks = Some m"
  then have "m \<noteq> []" and "take (length m) s = m"
    by (auto simp: find_Some_iff)
  then have "s \<noteq> []" by auto
  with \<open>m \<noteq> []\<close>
  show "((marks, drop (length m) s), (marks, s)) \<in> measure (\<lambda>(marks, s). length s)"
    by simp
qed

text \<open>
  \<open>s.trim()\<close>: the white space is removed at the front, and at the end by the same
  function on the reversed text (in UTF-8 the last bytes of a text spell a white space
  character only when that character ends the text).
\<close>

definition trim :: "string \<Rightarrow> string" where
  "trim s = rev (stripLeading (map rev WhiteSpace) (rev (stripLeading WhiteSpace s)))"

definition lowerChar :: "char \<Rightarrow> char" where
  "lowerChar c =
     (let n = (of_char c :: nat) in if 65 \<le> n \<and> n \<le> 90 then char_of (n + 32) else c)"

definition toLowerCase :: "string \<Rightarrow> string" where
  "toLowerCase s = map lowerChar s"

fun join :: "string \<Rightarrow> string list \<Rightarrow> string" where
  "join sep [] = []"
| "join sep [x] = x"
| "join sep (x # y # ys) = x @ sep @ join sep (y # ys)"

fun digits :: "nat \<Rightarrow> string" where
  "digits n =
     (if n < 10 then [char_of (48 + n)] else digits (n div 10) @ [char_of (48 + n mod 10)])"

definition intToString :: "int \<Rightarrow> string" where
  "intToString i = (if i < 0 then CHR ''-'' # digits (nat (- i)) else digits (nat i))"

text \<open>\<open>String(v)\<close> for a cell; \<open>None\<close> stands for \<open>undefined\<close> (an index out of range).\<close>

fun js_String :: "sqlvalue option \<Rightarrow> string" where
  "js_String None = ''undefined''"
| "js_String (Some SqlNull) = ''null''"
| "js_String (Some (SqlString s)) = s"
| "js_String (Some (SqlNumber n)) = intToString n"
| "js_String (Some (SqlBytes bs)) = join '','' (map digits bs)"

text \<open>The truth value of a cell in a condition.\<close>

fun truthy :: "sqlvalue option \<Rightarrow> bool" where
  "truthy None = False"
| "truthy (Some SqlNull) = False"
| "truthy (Some (SqlString s)) = (s \<noteq> [])"
| "truthy (Some (SqlNumber n)) = (n \<noteq> 0)"
| "truthy (Some (SqlBytes bs)) = True"

text \<open>\<open>row[i]\<close>: \<open>undefined\<close> out of range.\<close>

definition at :: "'a list \<Rightarrow> nat \<Rightarrow> 'a option" where
  "at xs i = (if i < length xs then Some (xs ! i) else None)"

text \<open>\<open>xs.indexOf(x)\<close>, with \<open>None\<close> for \<open>-1\<close>.\<close>

fun indexOf :: "'a list \<Rightarrow> 'a \<Rightarrow> nat option" where
  "indexOf [] x = None"
| "indexOf (y # ys) x =
     (if y = x then Some 0 else (case indexOf ys x of None \<Rightarrow> None | Some i \<Rightarrow> Some (Suc i)))"

text \<open>A \<open>Set\<close> keeps its elements in insertion order; adding a member again changes nothing.\<close>

definition set_add :: "'a list \<Rightarrow> 'a \<Rightarrow> 'a list" where
  "set_add s x = (if x \<in> set s then s else s @ [x])"

section \<open>Schema inference\<close>

definition RESOURCE_TABLE_CANDIDATES :: "string list" where
  "RESOURCE_TABLE_CANDIDATES =
     [''Resource'', ''Resources'', ''LibraryCatalog'', ''Catalog'', ''LibraryResources'']"

definition ID_COLUMN_CANDIDATES :: "string list" where
  "ID_COLUMN_CANDIDATES = [''resourceid'', ''resource_id'', ''res_id'', ''id'']"

definition TITLE_COLUMN_CANDIDATES :: "string list" where
  "TITLE_COLUMN_CANDIDATES = [''title'', ''name'', ''displayname'', ''resourcetitle'']"

definition AUTHOR_COLUMN_CANDIDATES :: "string list" where
  "AUTHOR_COLUMN_CANDIDATES = [''author'', ''authors'', ''creator'', ''authorname'']"

definition ABBREV_COLUMN_CANDIDATES :: "string list" where
  "ABBREV_COLUMN_CANDIDATES =
     [''abbreviation'', ''abbrev'', ''shorttitle'', ''resourceabbreviation'']"

fun findColumn :: "string list \<Rightarrow> string list \<Rightarrow> string option" where
  "findColumn cols [] = None"
| "findColumn cols (candidate # candidates) =
     (case indexOf (map toLowerCase cols) candidate of
        Some index \<Rightarrow> Some (cols ! index)
      | None \<Rightarrow> findColumn cols candidates)"

definition quoteIdentifier :: "string \<Rightarrow> string" where
  "quoteIdentifier identifier =
     [CHR 0x22] @ concat (map (\<lambda>c. if c = CHR 0x22 then [CHR 0x22, CHR 0x22] else [c]) identifier)
       @ [CHR 0x22]"

definition masterQuery :: string where
  "masterQuery = ''SELECT name FROM sqlite_master WHERE type='' @ [CHR 0x27] @ ''table'' @ [CHR 0x27]"

definition pragmaQuery :: "string \<Rightarrow> string" where
  "pragmaQuery t = ''PRAGMA table_info('' @ quoteIdentifier t @ '')''"

text \<open>The two nested loops that fill the set \<open>tableNames\<close>.\<close>

fun addNames :: "string list \<Rightarrow> sqlvalue list list \<Rightarrow> string list" where
  "addNames names [] = names"
| "addNames names (v # vs) =
     (if truthy (at v 0) then addNames (set_add names (js_String (at v 0))) vs
      else addNames names vs)"

fun collectTableNames :: "string list \<Rightarrow> QueryExecResult list \<Rightarrow> string list" where
  "collectTableNames names [] = names"
| "collectTableNames names (t # ts) = collectTableNames (addNames names (values_of t)) ts"

text \<open>The column names of a table: the second cell of every row of its \<open>table_info\<close>.\<close>

definition pragmaColumns :: "QueryExecResult \<Rightarrow> string list" where
  "pragmaColumns p = map (\<lambda>row. js_String (at row 1)) (values_of p)"

text \<open>A string in a condition is false when it is \<open>undefined\<close> or empty.\<close>

definition falsy :: "string option \<Rightarrow> bool" where
  "falsy s = (s = None \<or> s = Some [])"

text \<open>The loop over \<open>orderedTables\<close>; falling off its end is the final \<open>throw\<close>.\<close>

fun tryTables :: "Database \<Rightarrow> string list \<Rightarrow> string list \<Rightarrow> exn + TableInfo" where
  "tryTables database tableNames [] =
     Inl (Error ''Could not find a resource table inside catalog.db'')"
| "tryTables database tableNames (t # rest) =
     (if t \<notin> set tableNames \<and> t \<notin> set RESOURCE_TABLE_CANDIDATES
      then tryTables database tableNames rest
      else (case database (pragmaQuery t) of
          Inl e \<Rightarrow> Inl e
        | Inr [] \<Rightarrow> tryTables database tableNames rest
        | Inr (p # _) \<Rightarrow>
            (let cols = pragmaColumns p;
                 idc = findColumn cols ID_COLUMN_CANDIDATES;
                 titlec = findColumn cols TITLE_COLUMN_CANDIDATES
             in if falsy idc \<or> falsy titlec then tryTables database tableNames rest
                else Inr \<lparr> tableName = t, idColumn = the idc, titleColumn = the titlec,
                           authorColumn = findColumn cols AUTHOR_COLUMN_CANDIDATES,
                           abbrevColumn = findColumn cols ABBREV_COLUMN_CANDIDATES \<rparr>)))"

definition findResourceTable :: "Database \<Rightarrow> exn + TableInfo" where
  "findResourceTable database =
     (case database masterQuery of
        Inl e \<Rightarrow> Inl e
      | Inr tablesResult \<Rightarrow>
          (let tableNames = collectTableNames [] tablesResult
           in tryTables database tableNames (RESOURCE_TABLE_CANDIDATES @ tableNames)))"

section \<open>Extraction\<close>

definition selectQuery :: "TableInfo \<Rightarrow> string" where
  "selectQuery cols =
     (let selectColumns =
            [quoteIdentifier (idColumn cols) @ '' AS id'',
             quoteIdentifier (titleColumn cols) @ '' AS title'']
            @ (if falsy (authorColumn cols) then []
               else [quoteIdentifier (the (authorColumn cols)) @ '' AS author''])
            @ (if falsy (abbrevColumn cols) then []
               else [quoteIdentifier (the (abbrevColumn cols)) @ '' AS abbrev''])
      in ''SELECT '' @ join '', '' selectColumns @ '' FROM '' @ quoteIdentifier (tableName cols)
           @ '' WHERE '' @ quoteIdentifier (idColumn cols) @ '' IS NOT NULL AND ''
           @ quoteIdentifier (titleColumn cols) @ '' IS NOT NULL'')"

text \<open>
  The \<open>forEach\<close> over the column names: the partial record is a map from property
  names to strings, and a \<open>null\<close> or missing cell leaves it as it is.
\<close>

fun fillRecord :: "string list \<Rightarrow> nat \<Rightarrow> sqlvalue list \<Rightarrow> (string \<rightharpoonup> string) \<Rightarrow> (string \<rightharpoonup> string)"
  where
  "fillRecord [] index row record = record"
| "fillRecord (columnName # rest) index row record =
     (case at row index of
        None \<Rightarrow> fillRecord rest (Suc index) row record
      | Some SqlNull \<Rightarrow> fillRecord rest (Suc index) row record
      | Some (SqlString s) \<Rightarrow> fillRecord rest (Suc index) row (record(columnName \<mapsto> s))
      | Some v \<Rightarrow> fillRecord rest (Suc index) row (record(columnName \<mapsto> js_String (Some v))))"

text \<open>The loop over the rows, with the array \<open>items\<close> and the set \<open>seen\<close>.\<close>

fun extractRows ::
  "string list \<Rightarrow> sqlvalue list list \<Rightarrow> ResourceRow list \<Rightarrow> string set \<Rightarrow> ResourceRow list"
  where
  "extractRows columnNames [] items seen = items"
| "extractRows columnNames (row # rows) items seen =
     (let record = fillRecord columnNames 0 row Map.empty
      in if falsy (record ''id'') \<or> falsy (record ''title'')
         then extractRows columnNames rows items seen
         else if the (record ''id'') \<in> seen
         then extractRows columnNames rows items seen
         else extractRows columnNames rows
                (items @ [\<lparr> id_of = the (record ''id''), title = the (record ''title''),
                            author = record ''author'', abbrev = record ''abbrev'' \<rparr>])
                (insert (the (record ''id'')) seen))"

text \<open>
  \<open>Array.prototype.sort\<close> with a comparison function. The sort is stable, and for a
  consistent comparison function its result is the one arrangement that is sorted and
  keeps equal elements in their order; insertion from the right computes it.
\<close>

fun insert_js :: "('a \<Rightarrow> 'a \<Rightarrow> int) \<Rightarrow> 'a \<Rightarrow> 'a list \<Rightarrow> 'a list" where
  "insert_js cmp x [] = [x]"
| "insert_js cmp x (y # ys) = (if cmp x y \<le> 0 then x # y # ys else y # insert_js cmp x ys)"

fun sort_js :: "('a \<Rightarrow> 'a \<Rightarrow> int) \<Rightarrow> 'a list \<Rightarrow> 'a list" where
  "sort_js cmp [] = []"
| "sort_js cmp (x # xs) = insert_js cmp x (sort_js cmp xs)"

text \<open>\<open>localeCompare\<close> belongs to the runtime and is a parameter.\<close>

definition queryResources ::
  "(string \<Rightarrow> string \<Rightarrow> int) \<Rightarrow> Database \<Rightarrow> TableInfo \<Rightarrow> exn + ResourceRow list" where
  "queryResources localeCompare database cols =
     (case database (selectQuery cols) of
        Inl e \<Rightarrow> Inl e
      | Inr [] \<Rightarrow> Inr []
      | Inr (result # _) \<Rightarrow>
          Inr (sort_js (\<lambda>a b. localeCompare (title a) (title b))
                 (extractRows (columns result) (values_of result) [] {})))"

section \<open>The runtime, the filesystem and the cache\<close>

text \<open>A value read by \<open>JSON.parse\<close> or written by \<open>JSON.stringify\<close>.\<close>

datatype json =
    JNull
  | JBool bool
  | JNumber int
  | JString string
  | JArray "json list"
  | JObject "(string \<times> json) list"

datatype OpenScheme = logosres | logos4

record Preferences =
  catalogPath :: "string option"
  fuzzyThreshold :: "string option"
  openScheme :: OpenScheme

text \<open>Modification times are whole milliseconds; they are only compared and subtracted.\<close>

record CachePayload =
  dbPath :: string
  mtimeMs :: int
  resources :: "json list"

record CatalogInfo =
  path :: string
  mtimeMs :: int

text \<open>The object \<open>{ resources, dbPath }\<close> that \<open>loadCatalog\<close> returns.\<close>

record LoadedCatalog =
  resources :: "json list"
  dbPath :: string

record Dirent =
  name :: string
  isDirectory :: bool

text \<open>
  What the program uses of Node, of Raycast and of sql.js without defining it. These are
  parameters: the path functions, the locale's comparison, the JSON functions, and
  \<open>initSqlJs\<close> with the constructor \<open>SQL.Database\<close> (either may throw).
\<close>

record Env =
  homedir :: string
  supportPath :: string
  path_join :: "string list \<Rightarrow> string"
  path_dirname :: "string \<Rightarrow> string"
  localeCompare :: "string \<Rightarrow> string \<Rightarrow> int"
  JSON_parse :: "string \<Rightarrow> exn + json"
  JSON_stringify :: "json \<Rightarrow> string"
  initSqlJs :: "exn + (string \<Rightarrow> exn + Database)"

text \<open>Every call that reaches outside the program is recorded, in order.\<close>

datatype effect =
    Access string
  | Stat string
  | Readdir string
  | ReadFile string
  | Mkdir string
  | WriteFile string string
  | ConsoleError string exn

text \<open>
  The filesystem answers each call with a result or a thrown error. \<open>fs_mkdir\<close> and
  \<open>fs_writeFile\<close> say which writes fail; a write that succeeds changes what
  \<open>fs_readFile\<close> answers for that path.
\<close>

record World =
  fs_access :: "string \<Rightarrow> exn option"
  fs_stat :: "string \<Rightarrow> exn + int"
  fs_readdir :: "string \<Rightarrow> exn + Dirent list"
  fs_readFile :: "string \<Rightarrow> exn + string"
  fs_mkdir :: "string \<Rightarrow> exn option"
  fs_writeFile :: "string \<Rightarrow> exn option"
  trace :: "effect list"

definition emit :: "effect \<Rightarrow> World \<Rightarrow> World" where
  "emit e w = w\<lparr> trace := trace w @ [e] \<rparr>"

text \<open>The property \<open>code\<close> of a thrown value, \<open>None\<close> for \<open>undefined\<close>.\<close>

fun code_of :: "exn \<Rightarrow> string option" where
  "code_of (ErrnoException c) = Some c"
| "code_of _ = None"

definition CACHE_FILENAME :: string where
  "CACHE_FILENAME = ''catalog-cache.json''"

section \<open>Locating the catalog\<close>

definition pathExists :: "string \<Rightarrow> World \<Rightarrow> (exn + bool) \<times> World" where
  "pathExists target w =
     (case fs_access w target of
        None \<Rightarrow> (Inr True, emit (Access target) w)
      | Some e \<Rightarrow>
          if code_of e = Some ''ENOENT'' then (Inr False, emit (Access target) w)
          else (Inl e, emit (Access target) w))"

definition expandTilde :: "Env \<Rightarrow> string \<Rightarrow> string" where
  "expandTilde env input =
     (if take 1 input \<noteq> ''~'' then input else path_join env [homedir env, drop 1 input])"

definition catalogCandidate :: "Env \<Rightarrow> string \<Rightarrow> Dirent \<Rightarrow> string" where
  "catalogCandidate env baseDir entry =
     path_join env [baseDir, name entry, ''LibraryCatalog'', ''catalog.db'']"

text \<open>The loop over the directory entries, with the array \<open>candidates\<close>.\<close>

fun scanEntries ::
  "Env \<Rightarrow> string \<Rightarrow> Dirent list \<Rightarrow> CatalogInfo list \<Rightarrow> World \<Rightarrow> (exn + CatalogInfo list) \<times> World"
  where
  "scanEntries env baseDir [] candidates w = (Inr candidates, w)"
| "scanEntries env baseDir (entry # entries) candidates w =
     (if \<not> isDirectory entry then scanEntries env baseDir entries candidates w
      else (let candidate = catalogCandidate env baseDir entry
            in case pathExists candidate w of
                 (Inl e, w1) \<Rightarrow> (Inl e, w1)
               | (Inr False, w1) \<Rightarrow> scanEntries env baseDir entries candidates w1
               | (Inr True, w1) \<Rightarrow>
                   (case fs_stat w1 candidate of
                      Inl e \<Rightarrow> (Inl e, emit (Stat candidate) w1)
                    | Inr m \<Rightarrow>
                        scanEntries env baseDir entries
                          (candidates @ [\<lparr> path = candidate, mtimeMs = m \<rparr>])
                          (emit (Stat candidate) w1))))"

definition baseDir_of :: "Env \<Rightarrow> string" where
  "baseDir_of env =
     path_join env [homedir env, ''Library'', ''Application Support'', ''Logos4'', ''Data'']"

definition resolveCatalog :: "Env \<Rightarrow> Preferences \<Rightarrow> World \<Rightarrow> (exn + CatalogInfo) \<times> World" where
  "resolveCatalog env preferences w =
     (let override = map_option trim (catalogPath preferences)
      in if \<not> falsy override then
           (let fullPath = expandTilde env (the override)
            in case pathExists fullPath w of
                 (Inl e, w1) \<Rightarrow> (Inl e, w1)
               | (Inr False, w1) \<Rightarrow> (Inl (Error (''catalog.db not found at '' @ fullPath)), w1)
               | (Inr True, w1) \<Rightarrow>
                   (case fs_stat w1 fullPath of
                      Inl e \<Rightarrow> (Inl e, emit (Stat fullPath) w1)
                    | Inr m \<Rightarrow> (Inr \<lparr> path = fullPath, mtimeMs = m \<rparr>, emit (Stat fullPath) w1)))
         else
           (let baseDir = baseDir_of env
            in case pathExists baseDir w of
                 (Inl e, w1) \<Rightarrow> (Inl e, w1)
               | (Inr False, w1) \<Rightarrow>
                   (Inl (Error ''catalog.db not found. Launch Logos once, then try again. You may need to grant Raycast Full Disk Access.''), w1)
               | (Inr True, w1) \<Rightarrow>
                   (case fs_readdir w1 baseDir of
                      Inl e \<Rightarrow> (Inl e, emit (Readdir baseDir) w1)
                    | Inr entries \<Rightarrow>
                        (case scanEntries env baseDir entries [] (emit (Readdir baseDir) w1) of
                           (Inl e, w2) \<Rightarrow> (Inl e, w2)
                         | (Inr candidates, w2) \<Rightarrow>
                             if candidates = [] then
                               (Inl (Error ''catalog.db not found. Launch Logos once, then try again. You may need to grant Raycast Full Disk Access.''), w2)
                             else
                               (Inr (hd (sort_js (\<lambda>a b. CatalogInfo.mtimeMs b - CatalogInfo.mtimeMs a)
                                           candidates)), w2)))))"

section \<open>The cache store\<close>

text \<open>
  Reading a property of a parsed value: reading from \<open>null\<close> throws, a missing property
  is \<open>undefined\<close> (\<open>None\<close>), and only an object has the properties read here.
\<close>

fun property :: "json \<Rightarrow> string \<Rightarrow> exn + json option" where
  "property JNull k = Inl TypeError"
| "property (JObject kvs) k = Inr (map_of kvs k)"
| "property _ k = Inr None"

text \<open>The shape test of \<open>readCache\<close>, in the order the condition is evaluated.\<close>

definition checkPayload :: "json \<Rightarrow> exn + CachePayload option" where
  "checkPayload parsed =
     (case property parsed ''resources'' of
        Inl e \<Rightarrow> Inl e
      | Inr (Some (JArray rs)) \<Rightarrow>
          (case property parsed ''dbPath'' of
             Inl e \<Rightarrow> Inl e
           | Inr (Some (JString p)) \<Rightarrow>
               (case property parsed ''mtimeMs'' of
                  Inl e \<Rightarrow> Inl e
                | Inr (Some (JNumber m)) \<Rightarrow>
                    Inr (Some \<lparr> CachePayload.dbPath = p, CachePayload.mtimeMs = m,
                                 CachePayload.resources = rs \<rparr>)
                | Inr _ \<Rightarrow> Inr None)
           | Inr _ \<Rightarrow> Inr None)
      | Inr _ \<Rightarrow> Inr None)"

text \<open>The \<open>catch\<close> of \<open>readCache\<close>: every error but a missing file is logged.\<close>

definition readCache_catch :: "exn \<Rightarrow> World \<Rightarrow> World" where
  "readCache_catch error w =
     (if code_of error \<noteq> Some ''ENOENT'' then emit (ConsoleError ''Failed to read cache'' error) w
      else w)"

definition readCache :: "Env \<Rightarrow> string \<Rightarrow> World \<Rightarrow> CachePayload option \<times> World" where
  "readCache env cachePath w =
     (let w1 = emit (ReadFile cachePath) w
      in case fs_readFile w cachePath of
           Inl error \<Rightarrow> (None, readCache_catch error w1)
         | Inr contents \<Rightarrow>
             (case JSON_parse env contents of
                Inl error \<Rightarrow> (None, readCache_catch error w1)
              | Inr parsed \<Rightarrow>
                  (case checkPayload parsed of
                     Inl error \<Rightarrow> (None, readCache_catch error w1)
                   | Inr cached \<Rightarrow> (cached, w1))))"

definition ResourceRow_json :: "ResourceRow \<Rightarrow> json" where
  "ResourceRow_json r =
     JObject [(''id'', JString (id_of r)), (''title'', JString (title r)),
              (''author'', case author r of None \<Rightarrow> JNull | Some a \<Rightarrow> JString a),
              (''abbrev'', case abbrev r of None \<Rightarrow> JNull | Some a \<Rightarrow> JString a)]"

definition CachePayload_json :: "CachePayload \<Rightarrow> json" where
  "CachePayload_json payload =
     JObject [(''dbPath'', JString (CachePayload.dbPath payload)),
              (''mtimeMs'', JNumber (CachePayload.mtimeMs payload)),
              (''resources'', JArray (CachePayload.resources payload))]"

definition writeCache :: "Env \<Rightarrow> string \<Rightarrow> CachePayload \<Rightarrow> World \<Rightarrow> World" where
  "writeCache env cachePath payload w =
     (let dir = path_dirname env cachePath;
          w1 = emit (Mkdir dir) w
      in case fs_mkdir w dir of
           Some error \<Rightarrow> emit (ConsoleError ''Failed to write cache'' error) w1
         | None \<Rightarrow>
             (let contents = JSON_stringify env (CachePayload_json payload);
                  w2 = emit (WriteFile cachePath contents) w1
              in case fs_writeFile w cachePath of
                   Some error \<Rightarrow> emit (ConsoleError ''Failed to write cache'' error) w2
                 | None \<Rightarrow> w2\<lparr> fs_readFile := (fs_readFile w2)(cachePath := Inr contents) \<rparr>))"

section \<open>Loading\<close>

definition readCatalogDatabase :: "Env \<Rightarrow> string \<Rightarrow> World \<Rightarrow> (exn + ResourceRow list) \<times> World"
  where
  "readCatalogDatabase env file_path w =
     (case initSqlJs env of
        Inl e \<Rightarrow> (Inl e, w)
      | Inr SQL_Database \<Rightarrow>
          (case fs_readFile w file_path of
             Inl e \<Rightarrow> (Inl e, emit (ReadFile file_path) w)
           | Inr file \<Rightarrow>
               (case SQL_Database file of
                  Inl e \<Rightarrow> (Inl e, emit (ReadFile file_path) w)
                | Inr database \<Rightarrow>
                    ((case findResourceTable database of
                        Inl e \<Rightarrow> Inl e
                      | Inr tableInfo \<Rightarrow> queryResources (localeCompare env) database tableInfo),
                     emit (ReadFile file_path) w))))"

definition cachePath_of :: "Env \<Rightarrow> string" where
  "cachePath_of env = path_join env [supportPath env, CACHE_FILENAME]"

text \<open>The test that decides whether the cached payload is returned.\<close>

definition fresh :: "CachePayload option \<Rightarrow> CatalogInfo \<Rightarrow> bool" where
  "fresh cached catalogInfo =
     (case cached of
        None \<Rightarrow> False
      | Some c \<Rightarrow>
          CachePayload.dbPath c = path catalogInfo \<and>
          CachePayload.mtimeMs c = CatalogInfo.mtimeMs catalogInfo)"

definition loadCatalog ::
  "Env \<Rightarrow> Preferences \<Rightarrow> bool \<Rightarrow> World \<Rightarrow> (exn + LoadedCatalog) \<times> World" where
  "loadCatalog env preferences forceRefresh w =
     (case resolveCatalog env preferences w of
        (Inl e, w1) \<Rightarrow> (Inl e, w1)
      | (Inr catalogInfo, w1) \<Rightarrow>
          (let cachePath = cachePath_of env;
               (cached, w2) = (if \<not> forceRefresh then readCache env cachePath w1 else (None, w1))
           in if fresh cached catalogInfo
              then (Inr \<lparr> resources = CachePayload.resources (the cached),
                          dbPath = path catalogInfo \<rparr>, w2)
              else (case readCatalogDatabase env (path catalogInfo) w2 of
                      (Inl e, w3) \<Rightarrow> (Inl e, w3)
                    | (Inr rows, w3) \<Rightarrow>
                        (Inr \<lparr> resources = map ResourceRow_json rows,
                               dbPath = path catalogInfo \<rparr>,
                         writeCache env cachePath
                           \<lparr> CachePayload.dbPath = path catalogInfo,
                             CachePayload.mtimeMs = CatalogInfo.mtimeMs catalogInfo,
                             CachePayload.resources = map ResourceRow_json rows \<rparr> w3))))"

section \<open>Search\<close>


section \<open>Notions used by the properties\<close>

subsection \<open>Schema inference\<close>

text \<open>
  A table qualifies when its \<open>table_info\<close> is returned, is not empty, and resolves both
  an id column and a title column.
\<close>

definition qualifies :: "Database \<Rightarrow> string \<Rightarrow> bool" where
  "qualifies database t =
     (case database (pragmaQuery t) of
        Inr (p # _) \<Rightarrow>
          \<not> falsy (findColumn (pragmaColumns p) ID_COLUMN_CANDIDATES) \<and>
          \<not> falsy (findColumn (pragmaColumns p) TITLE_COLUMN_CANDIDATES)
      | _ \<Rightarrow> False)"

text \<open>
  A database with the two tables \<open>Catalog\<close> and \<open>Resources\<close>, both with the columns
  \<open>ResourceId\<close> and \<open>Title\<close>.
\<close>

definition twoTables :: Database where
  "twoTables q =
     (if q = masterQuery then
        Inr [\<lparr> columns = [''name''],
               values_of = [[SqlString ''Catalog''], [SqlString ''Resources'']] \<rparr>]
      else if q = pragmaQuery ''Resources'' \<or> q = pragmaQuery ''Catalog'' then
        Inr [\<lparr> columns = [''cid'', ''name''],
               values_of = [[SqlNumber 0, SqlString ''ResourceId''],
                            [SqlNumber 1, SqlString ''Title'']] \<rparr>]
      else Inr [])"

subsection \<open>Extraction\<close>

text \<open>
  The record that the loop of \<open>queryResources\<close> builds from one row, when the row yields
  a non-empty id and a non-empty title; such a row is called usable.
\<close>

definition rowRecord :: "string list \<Rightarrow> sqlvalue list \<Rightarrow> ResourceRow option" where
  "rowRecord columnNames row =
     (let record = fillRecord columnNames 0 row Map.empty
      in if falsy (record ''id'') \<or> falsy (record ''title'') then None
         else Some \<lparr> id_of = the (record ''id''), title = the (record ''title''),
                     author = record ''author'', abbrev = record ''abbrev'' \<rparr>)"

text \<open>The id that a row carries, as text, whether or not the row is usable.\<close>

definition rowId :: "string list \<Rightarrow> sqlvalue list \<Rightarrow> string option" where
  "rowId columnNames row = fillRecord columnNames 0 row Map.empty ''id''"

text \<open>
  \<open>x\<close> is the record of the first row, among all rows, that carries the id of \<open>x\<close>.
\<close>

definition keptFromFirstRow :: "string list \<Rightarrow> sqlvalue list list \<Rightarrow> ResourceRow \<Rightarrow> bool" where
  "keptFromFirstRow columnNames rows x =
     (case find (\<lambda>row. rowId columnNames row = Some (id_of x)) rows of
        None \<Rightarrow> False
      | Some row \<Rightarrow> rowRecord columnNames row = Some x)"

text \<open>
  \<open>x\<close> is the record of the first row, among the usable rows, that carries the id of \<open>x\<close>.
\<close>

definition keptFromFirstUsableRow ::
  "string list \<Rightarrow> sqlvalue list list \<Rightarrow> ResourceRow \<Rightarrow> bool" where
  "keptFromFirstUsableRow columnNames rows x =
     (case find (\<lambda>row. map_option id_of (rowRecord columnNames row) = Some (id_of x)) rows of
        None \<Rightarrow> False
      | Some row \<Rightarrow> rowRecord columnNames row = Some x)"

text \<open>The schema and the database of the examples: one table \<open>Resource\<close>.\<close>

definition exampleSchema :: TableInfo where
  "exampleSchema =
     \<lparr> tableName = ''Resource'', idColumn = ''resourceid'', titleColumn = ''title'',
       authorColumn = Some ''author'', abbrevColumn = None \<rparr>"

definition databaseWith :: "sqlvalue list list \<Rightarrow> Database" where
  "databaseWith rows q =
     (if q = selectQuery exampleSchema then
        (if rows = [] then Inr []
         else Inr [\<lparr> columns = [''id'', ''title'', ''author''], values_of = rows \<rparr>])
      else if q = masterQuery then
        Inr [\<lparr> columns = [''name''], values_of = [[SqlString ''Resource'']] \<rparr>]
      else if q = pragmaQuery ''Resource'' then
        Inr [\<lparr> columns = [''cid'', ''name''],
               values_of = [[SqlNumber 0, SqlString ''resourceid''],
                            [SqlNumber 1, SqlString ''title''],
                            [SqlNumber 2, SqlString ''author'']] \<rparr>]
      else Inr [])"

text \<open>Two rows with the id 1; the first has an empty title.\<close>

definition emptyTitleFirst :: "sqlvalue list list" where
  "emptyTitleFirst =
     [[SqlNumber 1, SqlString [], SqlNull],
      [SqlNumber 1, SqlString ''Acts'', SqlNull]]"

text \<open>Three usable rows and a repeated id, out of order.\<close>

definition threeBooks :: "sqlvalue list list" where
  "threeBooks =
     [[SqlNumber 2, SqlString ''Romans'', SqlString ''Paul''],
      [SqlNumber 1, SqlString ''Acts'', SqlNull],
      [SqlNumber 2, SqlString ''Exodus'', SqlNull],
      [SqlString ''G'', SqlString ''Genesis'', SqlString ''Moses'']]"

text \<open>A comparison of titles for the examples: byte by byte, a prefix first.\<close>

fun byteCompare :: "string \<Rightarrow> string \<Rightarrow> int" where
  "byteCompare [] [] = 0"
| "byteCompare [] (y # ys) = -1"
| "byteCompare (x # xs) [] = 1"
| "byteCompare (x # xs) (y # ys) =
     (if (of_char x :: nat) < of_char y then -1
      else if (of_char y :: nat) < of_char x then 1
      else byteCompare xs ys)"

text \<open>A comparison function that orders all strings consistently.\<close>

definition consistent :: "(string \<Rightarrow> string \<Rightarrow> int) \<Rightarrow> bool" where
  "consistent cmp =
     ((\<forall>a b. cmp a b \<le> 0 \<or> cmp b a \<le> 0) \<and>
      (\<forall>a b c. cmp a b \<le> 0 \<and> cmp b c \<le> 0 \<longrightarrow> cmp a c \<le> 0))"

subsection \<open>An example installation\<close>

text \<open>
  A serialiser for the examples (strings are written without escapes), and a parser that
  knows the cache files of the examples.
\<close>

fun printJson :: "json \<Rightarrow> string" where
  "printJson JNull = ''null''"
| "printJson (JBool b) = (if b then ''true'' else ''false'')"
| "printJson (JNumber n) = intToString n"
| "printJson (JString s) = [CHR 0x22] @ s @ [CHR 0x22]"
| "printJson (JArray xs) = ''['' @ join '','' (map printJson xs) @ '']''"
| "printJson (JObject kvs) =
     ''{'' @ join '','' (map (\<lambda>(k, v). [CHR 0x22] @ k @ [CHR 0x22] @ '':'' @ printJson v) kvs) @ ''}''"

fun squeeze :: "string \<Rightarrow> string" where
  "squeeze (a # b # cs) =
     (if a = CHR ''/'' \<and> b = CHR ''/'' then squeeze (b # cs) else a # squeeze (b # cs))"
| "squeeze cs = cs"

definition posixJoin :: "string list \<Rightarrow> string" where
  "posixJoin parts = squeeze (join ''/'' parts)"

definition posixDirname :: "string \<Rightarrow> string" where
  "posixDirname p = rev (drop 1 (dropWhile (\<lambda>c. c \<noteq> CHR ''/'') (rev p)))"

text \<open>
  A cache file whose records were never produced by extraction: a repeated id, an empty
  title, an empty id, titles out of order, and an element that is no record at all.
\<close>

definition staleRecords :: "json list" where
  "staleRecords =
     [JObject [(''id'', JString ''7''), (''title'', JString ''Zechariah'')],
      JObject [(''id'', JString ''7''), (''title'', JString [])],
      JObject [(''id'', JString []), (''title'', JString ''Amos'')],
      JNumber 3]"

definition cachedJson :: json where
  "cachedJson =
     JObject [(''dbPath'', JString ''/Users/me/Library/Application Support/Logos4/Data/b/LibraryCatalog/catalog.db''),
              (''mtimeMs'', JNumber 200),
              (''resources'', JArray staleRecords)]"

text \<open>The records of the example database, as the load returns them.\<close>

definition threeBooksJson :: "json list" where
  "threeBooksJson =
     [JObject [(''id'', JString ''1''), (''title'', JString ''Acts''),
               (''author'', JNull), (''abbrev'', JNull)],
      JObject [(''id'', JString ''G''), (''title'', JString ''Genesis''),
               (''author'', JString ''Moses''), (''abbrev'', JNull)],
      JObject [(''id'', JString ''2''), (''title'', JString ''Romans''),
               (''author'', JString ''Paul''), (''abbrev'', JNull)]]"

text \<open>The payload that a load of the example writes to the cache.\<close>

definition freshJson :: json where
  "freshJson =
     JObject [(''dbPath'', JString ''/Users/me/Library/Application Support/Logos4/Data/b/LibraryCatalog/catalog.db''),
              (''mtimeMs'', JNumber 200),
              (''resources'', JArray threeBooksJson)]"

definition exampleParse :: "string \<Rightarrow> exn + json" where
  "exampleParse s =
     (if s = printJson cachedJson then Inr cachedJson
      else if s = printJson freshJson then Inr freshJson
      else if s = ''null'' then Inr JNull
      else if s = ''[]'' then Inr (JArray [])
      else Inl SyntaxError)"

definition exampleEnv :: Env where
  "exampleEnv =
     \<lparr> homedir = ''/Users/me'',
       supportPath = ''/support'',
       path_join = posixJoin,
       path_dirname = posixDirname,
       localeCompare = byteCompare,
       JSON_parse = exampleParse,
       JSON_stringify = printJson,
       initSqlJs = Inr (\<lambda>file. if file = ''threeBooks'' then Inr (databaseWith threeBooks)
                                 else Inl (Error ''file is not a database'')) \<rparr>"

definition ENOENT :: exn where
  "ENOENT = ErrnoException ''ENOENT''"

text \<open>
  The base directory holds the account folders \<open>a\<close>, \<open>b\<close>, \<open>c\<close> and \<open>d\<close> and a plain
  file. The folders \<open>a\<close>, \<open>b\<close> and \<open>d\<close> hold a catalog, modified at 100, 200 and 200.
  There is no cache file.
\<close>

definition exampleWorld :: World where
  "exampleWorld =
     \<lparr> fs_access = (\<lambda>p.
         if p = ''/Users/me/Library/Application Support/Logos4/Data''
            \<or> p = ''/Users/me/Library/Application Support/Logos4/Data/a/LibraryCatalog/catalog.db''
            \<or> p = ''/Users/me/Library/Application Support/Logos4/Data/b/LibraryCatalog/catalog.db''
            \<or> p = ''/Users/me/Library/Application Support/Logos4/Data/d/LibraryCatalog/catalog.db''
         then None else Some ENOENT),
       fs_stat = (\<lambda>p.
         if p = ''/Users/me/Library/Application Support/Logos4/Data/a/LibraryCatalog/catalog.db''
         then Inr 100
         else if p = ''/Users/me/Library/Application Support/Logos4/Data/b/LibraryCatalog/catalog.db''
         then Inr 200
         else if p = ''/Users/me/Library/Application Support/Logos4/Data/d/LibraryCatalog/catalog.db''
         then Inr 200
         else Inl ENOENT),
       fs_readdir = (\<lambda>p.
         if p = ''/Users/me/Library/Application Support/Logos4/Data''
         then Inr [\<lparr> name = ''a'', isDirectory = True \<rparr>,
                   \<lparr> name = ''notes.txt'', isDirectory = False \<rparr>,
                   \<lparr> name = ''b'', isDirectory = True \<rparr>,
                   \<lparr> name = ''c'', isDirectory = True \<rparr>,
                   \<lparr> name = ''d'', isDirectory = True \<rparr>]
         else Inl ENOENT),
       fs_readFile = (\<lambda>p.
         if p = ''/Users/me/Library/Application Support/Logos4/Data/b/LibraryCatalog/catalog.db''
         then Inr ''threeBooks''
         else Inl ENOENT),
       fs_mkdir = (\<lambda>p. None),
       fs_writeFile = (\<lambda>p. None),
       trace = [] \<rparr>"

definition noOverride :: Preferences where
  "noOverride = \<lparr> catalogPath = None, fuzzyThreshold = None, openScheme = logosres \<rparr>"

text \<open>An override between a no-break space and a blank, and one that is a no-break space only.\<close>

definition missingOverride :: Preferences where
  "missingOverride =
     \<lparr> catalogPath = Some ([CHR 0xC2, CHR 0xA0] @ ''~/old/catalog.db ''),
       fuzzyThreshold = None, openScheme = logosres \<rparr>"

definition blankOverride :: Preferences where
  "blankOverride =
     \<lparr> catalogPath = Some [CHR 0xC2, CHR 0xA0], fuzzyThreshold = None, openScheme = logosres \<rparr>"

text \<open>The same installation without the base directory, and with an empty one.\<close>

definition baseMissingWorld :: World where
  "baseMissingWorld = exampleWorld\<lparr> fs_access := (\<lambda>p. Some ENOENT) \<rparr>"

definition emptyBaseWorld :: World where
  "emptyBaseWorld = exampleWorld\<lparr> fs_readdir := (\<lambda>p. Inr []) \<rparr>"

text \<open>A world with the given text in the cache file.\<close>

definition withCacheFile :: "string \<Rightarrow> World \<Rightarrow> World" where
  "withCacheFile contents w =
     w\<lparr> fs_readFile := (fs_readFile w)(''/support/catalog-cache.json'' := Inr contents) \<rparr>"

text \<open>The same installation after the catalog of folder \<open>b\<close> was modified once more.\<close>

definition touchedWorld :: World where
  "touchedWorld =
     exampleWorld\<lparr> fs_stat := (fs_stat exampleWorld)
       (''/Users/me/Library/Application Support/Logos4/Data/b/LibraryCatalog/catalog.db'' := Inr 201) \<rparr>"

subsection \<open>The cache store\<close>

text \<open>
  A parsed value has the expected shape when it is an object whose \<open>resources\<close> is an
  array, whose \<open>dbPath\<close> is a string and whose \<open>mtimeMs\<close> is a number.
\<close>

definition wellShaped :: "json \<Rightarrow> bool" where
  "wellShaped parsed =
     (case parsed of
        JObject kvs \<Rightarrow>
          (case (map_of kvs ''resources'', map_of kvs ''dbPath'', map_of kvs ''mtimeMs'') of
             (Some (JArray rs), Some (JString p), Some (JNumber m)) \<Rightarrow> True
           | _ \<Rightarrow> False)
      | _ \<Rightarrow> False)"

text \<open>
  The cache is at fault when its file is missing or cannot be read, when its text is not
  JSON, or when the parsed value has not the expected shape.
\<close>

definition cacheFault :: "Env \<Rightarrow> string \<Rightarrow> World \<Rightarrow> bool" where
  "cacheFault env cachePath w =
     (case fs_readFile w cachePath of
        Inl e \<Rightarrow> True
      | Inr contents \<Rightarrow>
          (case JSON_parse env contents of
             Inl e \<Rightarrow> True
           | Inr parsed \<Rightarrow> \<not> wellShaped parsed))"

text \<open>The world in which the cache writes fail as \<open>mk\<close> and \<open>wr\<close> say.\<close>

definition withWriteFailures ::
  "(string \<Rightarrow> exn option) \<Rightarrow> (string \<Rightarrow> exn option) \<Rightarrow> World \<Rightarrow> World" where
  "withWriteFailures mk wr w = w\<lparr> fs_mkdir := mk, fs_writeFile := wr \<rparr>"

subsection \<open>Search\<close>



section \<open>Properties\<close>

subsection \<open>Schema inference\<close>

lemma tryTables_hit:
  assumes "qualifies database t" and "t \<in> set names \<or> t \<in> set RESOURCE_TABLE_CANDIDATES"
  shows "\<exists>info. tryTables database names (t # rest) = Inr info \<and> tableName info = t"
proof -
  from assms(1) obtain p ps where p: "database (pragmaQuery t) = Inr (p # ps)"
    by (auto simp: qualifies_def split: sum.splits list.splits)
  with assms(1) have q: "\<not> falsy (findColumn (pragmaColumns p) ID_COLUMN_CANDIDATES)"
      "\<not> falsy (findColumn (pragmaColumns p) TITLE_COLUMN_CANDIDATES)"
    by (auto simp: qualifies_def)
  show ?thesis using p q assms(2) by (auto simp add: Let_def)
qed

lemma tryTables_miss:
  assumes "\<not> qualifies database t" and "database (pragmaQuery t) = Inr r"
  shows "tryTables database names (t # rest) = tryTables database names rest"
  using assms by (auto simp: qualifies_def Let_def split: list.splits)

text \<open>
  C1, as the code has it. \<open>Resources\<close> comes before \<open>Catalog\<close> in
  \<open>RESOURCE_TABLE_CANDIDATES\<close>. When the table listing and the \<open>table_info\<close> of
  \<open>Resource\<close> are returned without an error, and both \<open>Resources\<close> and \<open>Catalog\<close> qualify,
  schema inference returns \<open>Resources\<close>, or \<open>Resource\<close> when a table of that name qualifies
  as well; it never returns \<open>Catalog\<close>.
\<close>

theorem inference_prefers_Resources:
  assumes "database masterQuery = Inr listing"
    and "database (pragmaQuery ''Resource'') = Inr r"
    and "qualifies database ''Resources''"
    and "qualifies database ''Catalog''"
  shows "\<exists>info. findResourceTable database = Inr info \<and>
           tableName info =
             (if qualifies database ''Resource'' then ''Resource'' else ''Resources'') \<and>
           tableName info \<noteq> ''Catalog''"
proof -
  define names where "names = collectTableNames [] listing"
  define rest where
    "rest = [''LibraryCatalog'', ''Catalog'', ''LibraryResources''] @ names"
  have unfold: "findResourceTable database =
      tryTables database names (''Resource'' # ''Resources'' # rest)"
    using assms(1)
    by (simp add: findResourceTable_def names_def rest_def RESOURCE_TABLE_CANDIDATES_def Let_def
        del: tryTables.simps)
  have known: "''Resource'' \<in> set RESOURCE_TABLE_CANDIDATES"
      "''Resources'' \<in> set RESOURCE_TABLE_CANDIDATES"
    by (simp_all add: RESOURCE_TABLE_CANDIDATES_def)
  show ?thesis
  proof (cases "qualifies database ''Resource''")
    case True
    from tryTables_hit[OF True, of names "''Resources'' # rest"] known(1) unfold True
    show ?thesis by auto
  next
    case False
    from tryTables_miss[OF False assms(2), of names "''Resources'' # rest"]
    have "findResourceTable database = tryTables database names (''Resources'' # rest)"
      using unfold by simp
    with tryTables_hit[OF assms(3), of names rest] known(2) False
    show ?thesis by auto
  qed
qed

theorem inference_prefers_Resources_witness:
  "findResourceTable twoTables =
     Inr \<lparr> tableName = ''Resources'', idColumn = ''ResourceId'', titleColumn = ''Title'',
           authorColumn = None, abbrevColumn = None \<rparr> \<and>
   \<not> qualifies twoTables ''Resource''"
proof -
  have 1: "twoTables masterQuery = Inr [\<lparr> columns = [''name''],
               values_of = [[SqlString ''Catalog''], [SqlString ''Resources'']] \<rparr>]"
    by (simp add: twoTables_def)
  have 2: "twoTables (pragmaQuery ''Resource'') = Inr []" by code_simp
  have 3: "qualifies twoTables ''Resources''" by code_simp
  have 4: "qualifies twoTables ''Catalog''" by code_simp
  have 5: "\<not> qualifies twoTables ''Resource''" by code_simp
  from inference_prefers_Resources[OF 1 2 3 4] 5
  obtain info where "findResourceTable twoTables = Inr info" "tableName info = ''Resources''"
    by auto
  moreover have "findResourceTable twoTables =
     Inr \<lparr> tableName = ''Resources'', idColumn = ''ResourceId'', titleColumn = ''Title'',
           authorColumn = None, abbrevColumn = None \<rparr>" by code_simp
  ultimately show ?thesis using 5 by simp
qed

text \<open>
  C1 as stated fails: in a database where \<open>Resources\<close> and \<open>Catalog\<close> both qualify,
  inference returns \<open>Resources\<close>.
\<close>

theorem inference_not_Catalog_counterexample:
  "qualifies twoTables ''Resources'' \<and> qualifies twoTables ''Catalog'' \<and>
   findResourceTable twoTables =
     Inr \<lparr> tableName = ''Resources'', idColumn = ''ResourceId'', titleColumn = ''Title'',
           authorColumn = None, abbrevColumn = None \<rparr>"
  by code_simp

subsection \<open>Extraction\<close>

lemma rowRecord_nonempty:
  "rowRecord cn row = Some x \<Longrightarrow> id_of x \<noteq> [] \<and> title x \<noteq> []"
  by (auto simp: rowRecord_def falsy_def Let_def split: if_splits)

lemma extractRows_step:
  "extractRows cn (row # rows) items seen =
     (case rowRecord cn row of
        None \<Rightarrow> extractRows cn rows items seen
      | Some x \<Rightarrow>
          if id_of x \<in> seen then extractRows cn rows items seen
          else extractRows cn rows (items @ [x]) (insert (id_of x) seen))"
  by (simp add: rowRecord_def Let_def)

lemma extractRows_distinct:
  "distinct (map id_of items) \<Longrightarrow> id_of ` set items \<subseteq> seen \<Longrightarrow>
   distinct (map id_of (extractRows cn rows items seen))"
proof (induction rows arbitrary: items seen)
  case Nil
  then show ?case by simp
next
  case (Cons row rows)
  show ?case
  proof (cases "rowRecord cn row")
    case None
    with Cons show ?thesis by (simp add: extractRows_step del: extractRows.simps)
  next
    case (Some x)
    show ?thesis
    proof (cases "id_of x \<in> seen")
      case True
      with Some Cons show ?thesis by (simp add: extractRows_step del: extractRows.simps)
    next
      case False
      have "distinct (map id_of (items @ [x]))"
        using Cons.prems False by auto
      moreover have "id_of ` set (items @ [x]) \<subseteq> insert (id_of x) seen"
        using Cons.prems by auto
      ultimately have "distinct (map id_of (extractRows cn rows (items @ [x]) (insert (id_of x) seen)))"
        by (rule Cons.IH)
      with Some False show ?thesis by (simp add: extractRows_step del: extractRows.simps)
    qed
  qed
qed

lemma extractRows_nonempty:
  "\<forall>x\<in>set items. id_of x \<noteq> [] \<and> title x \<noteq> [] \<Longrightarrow>
   \<forall>x\<in>set (extractRows cn rows items seen). id_of x \<noteq> [] \<and> title x \<noteq> []"
proof (induction rows arbitrary: items seen)
  case Nil
  then show ?case by simp
next
  case (Cons row rows)
  show ?case
  proof (cases "rowRecord cn row")
    case None
    then have "extractRows cn (row # rows) items seen = extractRows cn rows items seen"
      by (simp add: extractRows_step del: extractRows.simps)
    with Cons.IH[OF Cons.prems] show ?thesis by simp
  next
    case (Some x)
    show ?thesis
    proof (cases "id_of x \<in> seen")
      case True
      with Some have "extractRows cn (row # rows) items seen = extractRows cn rows items seen"
        by (simp add: extractRows_step del: extractRows.simps)
      with Cons.IH[OF Cons.prems] show ?thesis by simp
    next
      case False
      with Some have eq: "extractRows cn (row # rows) items seen =
          extractRows cn rows (items @ [x]) (insert (id_of x) seen)"
        by (simp add: extractRows_step del: extractRows.simps)
      have "\<forall>y\<in>set (items @ [x]). id_of y \<noteq> [] \<and> title y \<noteq> []"
        using Cons.prems rowRecord_nonempty[OF Some] by auto
      from Cons.IH[OF this] show ?thesis unfolding eq .
    qed
  qed
qed

lemma kept_skip:
  "map_option id_of (rowRecord cn row) \<noteq> Some (id_of x) \<Longrightarrow>
   keptFromFirstUsableRow cn (row # rows) x = keptFromFirstUsableRow cn rows x"
  by (cases "rowRecord cn row") (auto simp: keptFromFirstUsableRow_def)

lemma kept_here:
  "rowRecord cn row = Some x \<Longrightarrow> keptFromFirstUsableRow cn (row # rows) x"
  by (simp add: keptFromFirstUsableRow_def)

lemma extractRows_first:
  "x \<in> set (extractRows cn rows items seen) \<Longrightarrow>
   x \<in> set items \<or> (id_of x \<notin> seen \<and> keptFromFirstUsableRow cn rows x)"
proof (induction rows arbitrary: items seen)
  case Nil
  then show ?case by simp
next
  case (Cons row rows)
  show ?case
  proof (cases "rowRecord cn row")
    case None
    with Cons.prems have "x \<in> set (extractRows cn rows items seen)"
      by (simp add: extractRows_step del: extractRows.simps)
    moreover have "keptFromFirstUsableRow cn (row # rows) x = keptFromFirstUsableRow cn rows x"
      using None by (simp add: kept_skip)
    ultimately show ?thesis using Cons.IH by blast
  next
    case (Some y)
    show ?thesis
    proof (cases "id_of y \<in> seen")
      case True
      with Some Cons.prems have "x \<in> set (extractRows cn rows items seen)"
        by (simp add: extractRows_step del: extractRows.simps)
      then have *: "x \<in> set items \<or> (id_of x \<notin> seen \<and> keptFromFirstUsableRow cn rows x)"
        by (rule Cons.IH)
      show ?thesis
      proof (cases "x \<in> set items")
        case False
        with * have a: "id_of x \<notin> seen" and b: "keptFromFirstUsableRow cn rows x" by auto
        from a True have "id_of y \<noteq> id_of x" by auto
        with Some have "keptFromFirstUsableRow cn (row # rows) x = keptFromFirstUsableRow cn rows x"
          by (simp add: kept_skip)
        with a b show ?thesis by simp
      qed simp
    next
      case False
      with Some Cons.prems
      have "x \<in> set (extractRows cn rows (items @ [y]) (insert (id_of y) seen))"
        by (simp add: extractRows_step del: extractRows.simps)
      then have *: "x \<in> set (items @ [y]) \<or>
          (id_of x \<notin> insert (id_of y) seen \<and> keptFromFirstUsableRow cn rows x)"
        by (rule Cons.IH)
      show ?thesis
      proof (cases "x \<in> set items")
        case notin: False
        show ?thesis
        proof (cases "x = y")
          case True
          with Some False show ?thesis by (simp add: kept_here)
        next
          case neq: False
          with * notin have a: "id_of x \<notin> seen" "id_of y \<noteq> id_of x"
            and b: "keptFromFirstUsableRow cn rows x" by auto
          from a(2) Some
          have "keptFromFirstUsableRow cn (row # rows) x = keptFromFirstUsableRow cn rows x"
            by (simp add: kept_skip)
          with a b show ?thesis by simp
        qed
      qed simp
    qed
  qed
qed

lemma extractRows_prefix: "set items \<subseteq> set (extractRows cn rows items seen)"
proof (induction rows arbitrary: items seen)
  case Nil
  then show ?case by simp
next
  case (Cons row rows)
  have "set items \<subseteq> set (items @ [y])" for y by auto
  with Cons.IH[of "items @ [_]"] Cons.IH[of items] show ?case
    by (auto simp add: extractRows_step simp del: extractRows.simps split: option.splits)
qed

lemma extractRows_complete:
  "row \<in> set rows \<Longrightarrow> rowRecord cn row = Some y \<Longrightarrow>
   id_of y \<in> seen \<union> id_of ` set (extractRows cn rows items seen)"
proof (induction rows arbitrary: items seen)
  case Nil
  then show ?case by simp
next
  case (Cons r rows)
  show ?case
  proof (cases "rowRecord cn r")
    case None
    with Cons.prems have "row \<in> set rows" by auto
    from Cons.IH[OF this Cons.prems(2)] None show ?thesis
      by (simp add: extractRows_step del: extractRows.simps)
  next
    case (Some z)
    show ?thesis
    proof (cases "id_of z \<in> seen")
      case True
      show ?thesis
      proof (cases "row = r")
        case True
        with Some Cons.prems(2) \<open>id_of z \<in> seen\<close> show ?thesis by simp
      next
        case False
        with Cons.prems have "row \<in> set rows" by auto
        from Cons.IH[OF this Cons.prems(2)] Some True show ?thesis
          by (simp add: extractRows_step del: extractRows.simps)
      qed
    next
      case False
      have z: "z \<in> set (extractRows cn rows (items @ [z]) (insert (id_of z) seen))"
        using extractRows_prefix[of "items @ [z]"] by auto
      show ?thesis
      proof (cases "row = r")
        case True
        with Some Cons.prems(2) have "y = z" by simp
        with z Some False show ?thesis
          by (auto simp add: extractRows_step simp del: extractRows.simps)
      next
        case neq: False
        with Cons.prems have "row \<in> set rows" by auto
        from Cons.IH[OF this Cons.prems(2), of "insert (id_of z) seen" "items @ [z]"] z Some False
        show ?thesis
          by (auto simp add: extractRows_step simp del: extractRows.simps)
      qed
    qed
  qed
qed

lemma set_insert_js: "set (insert_js cmp x ys) = insert x (set ys)"
  by (induction ys) auto

lemma set_sort_js: "set (sort_js cmp xs) = set xs"
  by (induction xs) (auto simp: set_insert_js)

lemma distinct_insert_js:
  "distinct (map f (insert_js cmp x ys)) = (f x \<notin> f ` set ys \<and> distinct (map f ys))"
  by (induction ys) (auto simp: set_insert_js)

lemma distinct_sort_js: "distinct (map f (sort_js cmp xs)) = distinct (map f xs)"
  by (induction xs) (auto simp: distinct_insert_js set_sort_js)

text \<open>
  C2, as the code has it. The records that extraction returns have pairwise distinct ids
  and a non-empty id and title each. A row is usable when it yields a non-empty id and a
  non-empty title; every returned record is the record of the first usable row that carries
  its id, and every id carried by a usable row is the id of a returned record.
\<close>

theorem extraction_records:
  assumes "queryResources cmp database cols = Inr items"
  shows "distinct (map id_of items) \<and>
         (\<forall>x\<in>set items. id_of x \<noteq> [] \<and> title x \<noteq> []) \<and>
         (\<forall>result rest. database (selectQuery cols) = Inr (result # rest) \<longrightarrow>
            (\<forall>x\<in>set items. keptFromFirstUsableRow (columns result) (values_of result) x) \<and>
            (\<forall>row\<in>set (values_of result). \<forall>y. rowRecord (columns result) row = Some y \<longrightarrow>
               id_of y \<in> id_of ` set items))"
proof (cases "database (selectQuery cols)")
  case (Inl e)
  with assms show ?thesis by (simp add: queryResources_def)
next
  case (Inr results)
  show ?thesis
  proof (cases results)
    case Nil
    with Inr assms show ?thesis by (auto simp: queryResources_def)
  next
    case (Cons result rest)
    define raw where "raw = extractRows (columns result) (values_of result) [] {}"
    have items: "items = sort_js (\<lambda>a b. cmp (title a) (title b)) raw"
      using assms Inr Cons by (simp add: queryResources_def raw_def)
    have 1: "distinct (map id_of raw)"
      unfolding raw_def by (rule extractRows_distinct) simp_all
    have 2: "\<forall>x\<in>set raw. id_of x \<noteq> [] \<and> title x \<noteq> []"
      unfolding raw_def by (rule extractRows_nonempty) simp
    have 3: "\<forall>x\<in>set raw. keptFromFirstUsableRow (columns result) (values_of result) x"
      unfolding raw_def using extractRows_first[of _ "columns result" "values_of result" "[]" "{}"]
      by auto
    have 4: "\<forall>row\<in>set (values_of result). \<forall>y. rowRecord (columns result) row = Some y \<longrightarrow>
               id_of y \<in> id_of ` set raw"
      unfolding raw_def
      using extractRows_complete[of _ "values_of result" "columns result" _ "{}" "[]"] by auto
    from 1 2 3 4 show ?thesis
      unfolding items using Inr Cons by (simp add: distinct_sort_js set_sort_js)
  qed
qed


theorem extraction_records_witness:
  "queryResources byteCompare (databaseWith emptyTitleFirst) exampleSchema =
     Inr [\<lparr> id_of = ''1'', title = ''Acts'', author = None, abbrev = None \<rparr>] \<and>
   keptFromFirstUsableRow [''id'', ''title'', ''author''] emptyTitleFirst
     \<lparr> id_of = ''1'', title = ''Acts'', author = None, abbrev = None \<rparr>"
proof -
  let ?x = "\<lparr> id_of = ''1'', title = ''Acts'', author = None, abbrev = None \<rparr>"
  let ?result = "\<lparr> columns = [''id'', ''title'', ''author''], values_of = emptyTitleFirst \<rparr>"
  have run: "queryResources byteCompare (databaseWith emptyTitleFirst) exampleSchema = Inr [?x]"
    by code_simp
  have sel: "databaseWith emptyTitleFirst (selectQuery exampleSchema) = Inr [?result]"
    by (simp add: databaseWith_def emptyTitleFirst_def)
  from extraction_records[OF run] sel
  have "keptFromFirstUsableRow (columns ?result) (values_of ?result) ?x"
    by simp
  with run show ?thesis by simp
qed

text \<open>
  C2 as stated fails where it speaks of the first row among all source rows: when the first
  row that carries an id has an empty title, the record that is kept comes from a later row.
\<close>

theorem first_row_counterexample:
  "queryResources byteCompare (databaseWith emptyTitleFirst) exampleSchema =
     Inr [\<lparr> id_of = ''1'', title = ''Acts'', author = None, abbrev = None \<rparr>] \<and>
   \<not> keptFromFirstRow [''id'', ''title'', ''author''] emptyTitleFirst
     \<lparr> id_of = ''1'', title = ''Acts'', author = None, abbrev = None \<rparr>"
  by code_simp

lemma sorted_insert_js:
  assumes total: "\<And>a b. cmp a b \<le> 0 \<or> cmp b a \<le> 0"
    and trans: "\<And>a b c. cmp a b \<le> 0 \<Longrightarrow> cmp b c \<le> 0 \<Longrightarrow> cmp a c \<le> 0"
  shows "sorted_wrt (\<lambda>a b. cmp a b \<le> 0) ys \<Longrightarrow>
         sorted_wrt (\<lambda>a b. cmp a b \<le> 0) (insert_js cmp x ys)"
proof (induction ys)
  case Nil
  then show ?case by simp
next
  case (Cons y ys)
  show ?case
  proof (cases "cmp x y \<le> 0")
    case True
    have "\<forall>z\<in>set ys. cmp x z \<le> 0"
      using Cons.prems True trans by auto
    with True Cons.prems show ?thesis by simp
  next
    case False
    with total[of x y] have "cmp y x \<le> 0" by simp
    with False Cons show ?thesis by (auto simp: set_insert_js)
  qed
qed

lemma sorted_sort_js:
  assumes "\<And>a b. cmp a b \<le> 0 \<or> cmp b a \<le> 0"
    and "\<And>a b c. cmp a b \<le> 0 \<Longrightarrow> cmp b c \<le> 0 \<Longrightarrow> cmp a c \<le> 0"
  shows "sorted_wrt (\<lambda>a b. cmp a b \<le> 0) (sort_js cmp xs)"
proof (induction xs)
  case Nil
  show ?case by simp
next
  case (Cons x xs)
  from sorted_insert_js[of cmp "sort_js cmp xs" x, OF assms Cons.IH]
  show ?case by simp
qed

lemma consistent_total:
  assumes "consistent cmp"
  shows "cmp a b \<le> 0 \<or> cmp b a \<le> 0"
proof -
  have "\<forall>a b. cmp a b \<le> 0 \<or> cmp b a \<le> 0"
    by (rule conjunct1[OF assms[unfolded consistent_def]])
  from this[rule_format, of a b] show ?thesis .
qed

lemma consistent_trans:
  assumes "consistent cmp" and "cmp a b \<le> 0" and "cmp b c \<le> 0"
  shows "cmp a c \<le> 0"
proof -
  have "\<forall>a b c. cmp a b \<le> 0 \<and> cmp b c \<le> 0 \<longrightarrow> cmp a c \<le> 0"
    by (rule conjunct2[OF assms(1)[unfolded consistent_def]])
  from this[rule_format, of a b c] assms(2,3) show ?thesis by simp
qed

text \<open>
  C5. For a comparison function that orders all strings consistently, the records that
  extraction returns are sorted in ascending order of their titles under that comparison.
\<close>

theorem extraction_sorted:
  assumes "consistent cmp"
    and "queryResources cmp database cols = Inr items"
  shows "sorted_wrt (\<lambda>a b. cmp (title a) (title b) \<le> 0) items"
proof (cases "database (selectQuery cols)")
  case (Inl e)
  with assms(2) show ?thesis by (simp add: queryResources_def)
next
  case (Inr results)
  show ?thesis
  proof (cases results)
    case Nil
    with Inr assms(2) have "items = []" by (simp add: queryResources_def)
    then show ?thesis by simp
  next
    case (Cons result rest)
    define c :: "ResourceRow \<Rightarrow> ResourceRow \<Rightarrow> int" where "c = (\<lambda>a b. cmp (title a) (title b))"
    have total: "c a b \<le> 0 \<or> c b a \<le> 0" for a b
      unfolding c_def by (rule consistent_total[OF assms(1)])
    have trans: "c a b \<le> 0 \<Longrightarrow> c b d \<le> 0 \<Longrightarrow> c a d \<le> 0" for a b d
      unfolding c_def by (rule consistent_trans[OF assms(1)])
    have "items = sort_js c (extractRows (columns result) (values_of result) [] {})"
      using assms(2) Inr Cons by (simp add: queryResources_def c_def)
    moreover have "sorted_wrt (\<lambda>a b. c a b \<le> 0) (sort_js c raw)" for raw
      by (rule sorted_sort_js[OF total trans])
    ultimately show ?thesis by (simp add: c_def)
  qed
qed

lemma byteCompare_total: "byteCompare a b \<le> 0 \<or> byteCompare b a \<le> 0"
proof (induction a b rule: byteCompare.induct)
  case (4 x xs y ys)
  show ?case
  proof (cases "(of_char x :: nat) < of_char y")
    case True
    then show ?thesis by simp
  next
    case False
    show ?thesis
    proof (cases "(of_char y :: nat) < of_char x")
      case True
      with False show ?thesis by simp
    next
      case nlt: False
      from "4.IH"[OF False nlt] False nlt show ?thesis by simp
    qed
  qed
qed simp_all

lemma byteCompare_trans:
  "byteCompare a b \<le> 0 \<Longrightarrow> byteCompare b c \<le> 0 \<Longrightarrow> byteCompare a c \<le> 0"
proof (induction a b arbitrary: c rule: byteCompare.induct)
  case 1
  then show ?case by simp
next
  case (2 y ys)
  then show ?case by (cases c) simp_all
next
  case (3 x xs)
  then show ?case by simp
next
  case (4 x xs y ys)
  show ?case
  proof (cases c)
    case Nil
    with "4.prems"(2) show ?thesis by simp
  next
    case (Cons z zs)
    define i :: nat where "i = of_char x"
    define j :: nat where "j = of_char y"
    define k :: nat where "k = of_char z"
    from "4.prems"(1) have ij: "i < j \<or> (i = j \<and> byteCompare xs ys \<le> 0)"
      unfolding i_def j_def by (simp split: if_splits)
    from "4.prems"(2) Cons have jk: "j < k \<or> (j = k \<and> byteCompare ys zs \<le> 0)"
      unfolding j_def k_def by (simp split: if_splits)
    show ?thesis
    proof (cases "i < k")
      case True
      then show ?thesis unfolding Cons i_def k_def by simp
    next
      case False
      with ij jk have eq: "i = j" "j = k" and le: "byteCompare xs ys \<le> 0" "byteCompare ys zs \<le> 0"
        by auto
      from eq have "\<not> (of_char x :: nat) < of_char y" "\<not> (of_char y :: nat) < of_char x"
        unfolding i_def j_def by simp_all
      from "4.IH"[OF this le] have "byteCompare xs zs \<le> 0" .
      with eq show ?thesis unfolding Cons i_def j_def k_def by simp
    qed
  qed
qed

lemma consistent_byteCompare: "consistent byteCompare"
  unfolding consistent_def
proof (intro conjI allI impI)
  fix a b
  show "byteCompare a b \<le> 0 \<or> byteCompare b a \<le> 0" by (rule byteCompare_total)
next
  fix a b c
  assume "byteCompare a b \<le> 0 \<and> byteCompare b c \<le> 0"
  then show "byteCompare a c \<le> 0" using byteCompare_trans by blast
qed

theorem extraction_sorted_witness:
  "queryResources byteCompare (databaseWith threeBooks) exampleSchema =
     Inr [\<lparr> id_of = ''1'', title = ''Acts'', author = None, abbrev = None \<rparr>,
          \<lparr> id_of = ''G'', title = ''Genesis'', author = Some ''Moses'', abbrev = None \<rparr>,
          \<lparr> id_of = ''2'', title = ''Romans'', author = Some ''Paul'', abbrev = None \<rparr>] \<and>
   sorted_wrt (\<lambda>a b. byteCompare (title a) (title b) \<le> 0)
     [\<lparr> id_of = ''1'', title = ''Acts'', author = None, abbrev = None \<rparr>,
      \<lparr> id_of = ''G'', title = ''Genesis'', author = Some ''Moses'', abbrev = None \<rparr>,
      \<lparr> id_of = ''2'', title = ''Romans'', author = Some ''Paul'', abbrev = None \<rparr>]"
proof -
  have run: "queryResources byteCompare (databaseWith threeBooks) exampleSchema =
     Inr [\<lparr> id_of = ''1'', title = ''Acts'', author = None, abbrev = None \<rparr>,
          \<lparr> id_of = ''G'', title = ''Genesis'', author = Some ''Moses'', abbrev = None \<rparr>,
          \<lparr> id_of = ''2'', title = ''Romans'', author = Some ''Paul'', abbrev = None \<rparr>]"
    by code_simp
  show ?thesis
    by (rule conjI[OF run extraction_sorted[OF consistent_byteCompare run]])
qed

subsection \<open>Locating the catalog\<close>

lemma fs_emit [simp]:
  "fs_access (emit e w) = fs_access w"
  "fs_stat (emit e w) = fs_stat w"
  "fs_readdir (emit e w) = fs_readdir w"
  "fs_readFile (emit e w) = fs_readFile w"
  "fs_mkdir (emit e w) = fs_mkdir w"
  "fs_writeFile (emit e w) = fs_writeFile w"
  "trace (emit e w) = trace w @ [e]"
  by (simp_all add: emit_def)

lemma pathExists_missing:
  "fs_access w target = Some e \<Longrightarrow> code_of e = Some ''ENOENT'' \<Longrightarrow>
   pathExists target w = (Inr False, emit (Access target) w)"
  by (simp add: pathExists_def)

lemma pathExists_present:
  "fs_access w target = None \<Longrightarrow> pathExists target w = (Inr True, emit (Access target) w)"
  by (simp add: pathExists_def)


lemma scanEntries_paths:
  "fst (scanEntries env baseDir entries candidates w) = Inr out \<Longrightarrow>
   map path out =
     map path candidates @
     map (catalogCandidate env baseDir)
       (filter (\<lambda>entry. isDirectory entry \<and> fs_access w (catalogCandidate env baseDir entry) = None)
          entries) \<and>
   (\<forall>c\<in>set out. c \<in> set candidates \<or> fs_stat w (path c) = Inr (CatalogInfo.mtimeMs c))"
proof (induction entries arbitrary: candidates w)
  case Nil
  then show ?case by simp
next
  case (Cons entry entries)
  let ?c = "catalogCandidate env baseDir entry"
  show ?case
  proof (cases "isDirectory entry")
    case False
    with Cons.prems have "fst (scanEntries env baseDir entries candidates w) = Inr out" by simp
    from Cons.IH[OF this] False show ?thesis by simp
  next
    case True
    show ?thesis
    proof (cases "fs_access w ?c")
      case None
      note present = pathExists_present[OF None]
      show ?thesis
      proof (cases "fs_stat w ?c")
        case (Inl e)
        with Cons.prems True present show ?thesis by (simp add: Let_def)
      next
        case (Inr m)
        with Cons.prems True present
        have "fst (scanEntries env baseDir entries (candidates @ [\<lparr> path = ?c, mtimeMs = m \<rparr>])
                (emit (Stat ?c) (emit (Access ?c) w))) = Inr out"
          by (simp add: Let_def)
        from Cons.IH[OF this] True None Inr show ?thesis by auto
      qed
    next
      case (Some e)
      show ?thesis
      proof (cases "code_of e = Some ''ENOENT''")
        case enoent: True
        from Cons.prems True pathExists_missing[OF Some enoent]
        have "fst (scanEntries env baseDir entries candidates (emit (Access ?c) w)) = Inr out"
          by (simp add: Let_def)
        from Cons.IH[OF this] True Some show ?thesis by simp
      next
        case False
        with Cons.prems True Some show ?thesis by (simp add: Let_def pathExists_def)
      qed
    qed
  qed
qed

lemma insert_js_not_Nil: "insert_js cmp x ys \<noteq> []"
  by (cases ys) auto

lemma hd_insert_js:
  "hd (insert_js cmp x ys) = (if ys = [] \<or> cmp x (hd ys) \<le> 0 then x else hd ys)"
  by (cases ys) auto

lemma sort_js_not_Nil: "xs \<noteq> [] \<Longrightarrow> sort_js cmp xs \<noteq> []"
  by (cases xs) (auto simp: insert_js_not_Nil)

lemma newest_first:
  fixes m :: "'a \<Rightarrow> int"
  assumes "xs \<noteq> []"
  shows "\<exists>i<length xs. hd (sort_js (\<lambda>a b. m b - m a) xs) = xs ! i \<and>
           (\<forall>j<length xs. m (xs ! j) \<le> m (xs ! i)) \<and>
           (\<forall>j<i. m (xs ! j) < m (xs ! i))"
  using assms
proof (induction xs)
  case Nil
  then show ?case by simp
next
  case (Cons x xs)
  let ?s = "sort_js (\<lambda>a b. m b - m a)"
  show ?case
  proof (cases "xs = []")
    case True
    then show ?thesis by simp
  next
    case False
    from Cons.IH[OF False] obtain i where i: "i < length xs" "hd (?s xs) = xs ! i"
      and all: "\<forall>j<length xs. m (xs ! j) \<le> m (xs ! i)"
      and before: "\<forall>j<i. m (xs ! j) < m (xs ! i)" by blast
    have hd: "hd (?s (x # xs)) = (if m (xs ! i) \<le> m x then x else xs ! i)"
      using sort_js_not_Nil[OF False, of "\<lambda>a b. m b - m a"] i(2) by (simp add: hd_insert_js)
    show ?thesis
    proof (cases "m (xs ! i) \<le> m x")
      case True
      have "\<forall>j<length (x # xs). m ((x # xs) ! j) \<le> m x"
      proof (intro allI impI)
        fix j assume "j < length (x # xs)"
        then show "m ((x # xs) ! j) \<le> m x"
          using all True by (cases j) (auto intro: order_trans)
      qed
      with hd True show ?thesis by (intro exI[of _ 0]) simp
    next
      case lt: False
      have a: "\<forall>j<length (x # xs). m ((x # xs) ! j) \<le> m (xs ! i)"
      proof (intro allI impI)
        fix j assume "j < length (x # xs)"
        then show "m ((x # xs) ! j) \<le> m (xs ! i)"
          using all lt by (cases j) auto
      qed
      have b: "\<forall>j<Suc i. m ((x # xs) ! j) < m (xs ! i)"
      proof (intro allI impI)
        fix j assume "j < Suc i"
        then show "m ((x # xs) ! j) < m (xs ! i)"
          using before lt by (cases j) auto
      qed
      from hd lt a b i(1) show ?thesis by (intro exI[of _ "Suc i"]) simp
    qed
  qed
qed

text \<open>
  C7. When an override path is configured (it is not empty after \<open>trim\<close> has removed the
  white space around it, ASCII or not) and the expanded form of the trimmed path does not
  exist, resolution fails with the error \<open>catalog.db not found at\<close> followed by that path,
  and so does the load. The only call to the outside is the access test of that path: the
  base directory is neither tested nor listed.
\<close>

theorem missing_override_fails:
  assumes "catalogPath preferences = Some p"
    and "trim p \<noteq> []"
    and "fs_access w (expandTilde env (trim p)) = Some e"
    and "code_of e = Some ''ENOENT''"
  shows "resolveCatalog env preferences w =
           (Inl (Error (''catalog.db not found at '' @ expandTilde env (trim p))),
            emit (Access (expandTilde env (trim p))) w) \<and>
         loadCatalog env preferences forceRefresh w =
           (Inl (Error (''catalog.db not found at '' @ expandTilde env (trim p))),
            emit (Access (expandTilde env (trim p))) w) \<and>
         trace (snd (loadCatalog env preferences forceRefresh w)) =
           trace w @ [Access (expandTilde env (trim p))]"
proof -
  have override: "\<not> falsy (map_option trim (catalogPath preferences))"
    using assms(1,2) by (simp add: falsy_def)
  have r: "resolveCatalog env preferences w =
           (Inl (Error (''catalog.db not found at '' @ expandTilde env (trim p))),
            emit (Access (expandTilde env (trim p))) w)"
    using override assms(1) pathExists_missing[OF assms(3,4)]
    by (simp add: resolveCatalog_def Let_def)
  then have l: "loadCatalog env preferences forceRefresh w =
           (Inl (Error (''catalog.db not found at '' @ expandTilde env (trim p))),
            emit (Access (expandTilde env (trim p))) w)"
    by (simp add: loadCatalog_def)
  from r l show ?thesis by simp
qed

theorem missing_override_fails_witness:
  "fst (loadCatalog exampleEnv missingOverride False exampleWorld) =
     Inl (Error ''catalog.db not found at /Users/me/old/catalog.db'') \<and>
   trace (snd (loadCatalog exampleEnv missingOverride False exampleWorld)) =
     [Access ''/Users/me/old/catalog.db'']"
proof -
  have 1: "catalogPath missingOverride = Some ([CHR 0xC2, CHR 0xA0] @ ''~/old/catalog.db '')"
    by (simp add: missingOverride_def)
  have 2: "trim ([CHR 0xC2, CHR 0xA0] @ ''~/old/catalog.db '') \<noteq> []" by code_simp
  have p: "expandTilde exampleEnv (trim ([CHR 0xC2, CHR 0xA0] @ ''~/old/catalog.db '')) = ''/Users/me/old/catalog.db''"
    by code_simp
  have 3: "fs_access exampleWorld (expandTilde exampleEnv (trim ([CHR 0xC2, CHR 0xA0] @ ''~/old/catalog.db ''))) = Some ENOENT"
    unfolding p by (simp add: exampleWorld_def)
  have 4: "code_of ENOENT = Some ''ENOENT''" by (simp add: ENOENT_def)
  have 5: "trace exampleWorld = []" by (simp add: exampleWorld_def)
  from missing_override_fails[OF 1 2 3 4, of False] show ?thesis
    unfolding p by (simp add: 5)
qed

lemma blank_override_is_unset:
  "trim [CHR 0xC2, CHR 0xA0] = [] \<and>
   fst (resolveCatalog exampleEnv blankOverride exampleWorld) =
     Inr \<lparr> path = ''/Users/me/Library/Application Support/Logos4/Data/b/LibraryCatalog/catalog.db'',
           mtimeMs = 200 \<rparr>"
  by code_simp

text \<open>
  C8. Without an override, when the base directory exists and is listed and the scan of its
  entries collects a non-empty list of candidates, the candidates stand in the order of the
  directory entries, and the locator returns one of them whose modification time is the
  greatest; every candidate before it in that order is strictly older, so among several
  newest candidates the first one is returned.
\<close>

theorem newest_candidate_wins:
  assumes "falsy (map_option trim (catalogPath preferences))"
    and "fs_access w (baseDir_of env) = None"
    and "fs_readdir w (baseDir_of env) = Inr entries"
    and "fst (scanEntries env (baseDir_of env) entries []
           (emit (Readdir (baseDir_of env)) (emit (Access (baseDir_of env)) w))) = Inr candidates"
    and "candidates \<noteq> []"
  shows "map path candidates =
           map (catalogCandidate env (baseDir_of env))
             (filter (\<lambda>entry. isDirectory entry \<and>
                        fs_access w (catalogCandidate env (baseDir_of env) entry) = None) entries) \<and>
         (\<exists>i<length candidates.
            fst (resolveCatalog env preferences w) = Inr (candidates ! i) \<and>
            (\<forall>j<length candidates.
               CatalogInfo.mtimeMs (candidates ! j) \<le> CatalogInfo.mtimeMs (candidates ! i)) \<and>
            (\<forall>j<i. CatalogInfo.mtimeMs (candidates ! j) < CatalogInfo.mtimeMs (candidates ! i)))"
proof -
  let ?w = "emit (Readdir (baseDir_of env)) (emit (Access (baseDir_of env)) w)"
  obtain w' where scan: "scanEntries env (baseDir_of env) entries [] ?w = (Inr candidates, w')"
    using assms(4) by (cases "scanEntries env (baseDir_of env) entries [] ?w") simp
  have "fst (resolveCatalog env preferences w) =
        Inr (hd (sort_js (\<lambda>a b. CatalogInfo.mtimeMs b - CatalogInfo.mtimeMs a) candidates))"
    using assms(1,3,5) pathExists_present[OF assms(2)] scan
    by (simp add: resolveCatalog_def Let_def)
  with newest_first[OF assms(5), of CatalogInfo.mtimeMs] scanEntries_paths[OF assms(4)]
  show ?thesis by auto
qed


theorem newest_candidate_wins_witness:
  "fst (resolveCatalog exampleEnv noOverride exampleWorld) =
     Inr \<lparr> path = ''/Users/me/Library/Application Support/Logos4/Data/b/LibraryCatalog/catalog.db'',
           mtimeMs = 200 \<rparr> \<and>
   (\<exists>i<3. fst (resolveCatalog exampleEnv noOverride exampleWorld) =
       Inr ([\<lparr> path = ''/Users/me/Library/Application Support/Logos4/Data/a/LibraryCatalog/catalog.db'',
               mtimeMs = 100 \<rparr>,
             \<lparr> path = ''/Users/me/Library/Application Support/Logos4/Data/b/LibraryCatalog/catalog.db'',
               mtimeMs = 200 \<rparr>,
             \<lparr> path = ''/Users/me/Library/Application Support/Logos4/Data/d/LibraryCatalog/catalog.db'',
               mtimeMs = 200 \<rparr>] ! i))"
proof -
  let ?base = "''/Users/me/Library/Application Support/Logos4/Data''"
  let ?cands = "[\<lparr> path = ''/Users/me/Library/Application Support/Logos4/Data/a/LibraryCatalog/catalog.db'',
               mtimeMs = 100 \<rparr>,
             \<lparr> path = ''/Users/me/Library/Application Support/Logos4/Data/b/LibraryCatalog/catalog.db'',
               mtimeMs = 200 \<rparr>,
             \<lparr> path = ''/Users/me/Library/Application Support/Logos4/Data/d/LibraryCatalog/catalog.db'',
               mtimeMs = 200 \<rparr>]"
  have base: "baseDir_of exampleEnv = ?base" by code_simp
  have 1: "falsy (map_option trim (catalogPath noOverride))"
    by (simp add: noOverride_def falsy_def)
  have 2: "fs_access exampleWorld (baseDir_of exampleEnv) = None"
    unfolding base by (simp add: exampleWorld_def)
  have 3: "fs_readdir exampleWorld (baseDir_of exampleEnv) =
      Inr [\<lparr> name = ''a'', isDirectory = True \<rparr>,
           \<lparr> name = ''notes.txt'', isDirectory = False \<rparr>,
           \<lparr> name = ''b'', isDirectory = True \<rparr>,
           \<lparr> name = ''c'', isDirectory = True \<rparr>,
           \<lparr> name = ''d'', isDirectory = True \<rparr>]"
    unfolding base by (simp add: exampleWorld_def)
  have 4: "fst (scanEntries exampleEnv (baseDir_of exampleEnv)
      [\<lparr> name = ''a'', isDirectory = True \<rparr>,
           \<lparr> name = ''notes.txt'', isDirectory = False \<rparr>,
           \<lparr> name = ''b'', isDirectory = True \<rparr>,
           \<lparr> name = ''c'', isDirectory = True \<rparr>,
           \<lparr> name = ''d'', isDirectory = True \<rparr>] []
      (emit (Readdir (baseDir_of exampleEnv)) (emit (Access (baseDir_of exampleEnv)) exampleWorld)))
      = Inr ?cands"
    by code_simp
  have 5: "?cands \<noteq> []" by simp
  have run: "fst (resolveCatalog exampleEnv noOverride exampleWorld) =
     Inr \<lparr> path = ''/Users/me/Library/Application Support/Logos4/Data/b/LibraryCatalog/catalog.db'',
           mtimeMs = 200 \<rparr>"
    by code_simp
  from newest_candidate_wins[OF 1 2 3 4 5]
  have "\<exists>i<length ?cands. fst (resolveCatalog exampleEnv noOverride exampleWorld) = Inr (?cands ! i)"
    by blast
  then have "\<exists>i<3. fst (resolveCatalog exampleEnv noOverride exampleWorld) = Inr (?cands ! i)"
    by (simp add: numeral_3_eq_3)
  with run show ?thesis by (rule conjI)
qed

lemma resolveCatalog_base_missing:
  assumes "falsy (map_option trim (catalogPath preferences))"
    and "fs_access w (baseDir_of env) = Some e"
    and "code_of e = Some ''ENOENT''"
  shows "fst (resolveCatalog env preferences w) =
    Inl (Error ''catalog.db not found. Launch Logos once, then try again. You may need to grant Raycast Full Disk Access.'')"
  using assms(1) pathExists_missing[OF assms(2,3)]
  by (simp add: resolveCatalog_def Let_def)

lemma resolveCatalog_no_candidates:
  assumes "falsy (map_option trim (catalogPath preferences))"
    and "fs_access w (baseDir_of env) = None"
    and "fs_readdir w (baseDir_of env) = Inr entries"
    and "fst (scanEntries env (baseDir_of env) entries []
           (emit (Readdir (baseDir_of env)) (emit (Access (baseDir_of env)) w))) = Inr []"
  shows "fst (resolveCatalog env preferences w) =
    Inl (Error ''catalog.db not found. Launch Logos once, then try again. You may need to grant Raycast Full Disk Access.'')"
proof -
  let ?w = "emit (Readdir (baseDir_of env)) (emit (Access (baseDir_of env)) w)"
  obtain w' where "scanEntries env (baseDir_of env) entries [] ?w = (Inr [], w')"
    using assms(4) by (cases "scanEntries env (baseDir_of env) entries [] ?w") simp
  with assms(1,3) pathExists_present[OF assms(2)] show ?thesis
    by (simp add: resolveCatalog_def Let_def)
qed

text \<open>
  C9, as the code has it. Without an override, the failure raised when the base directory
  is missing and the failure raised when the base directory exists but the scan finds no
  candidate are the same error, with the same message.
\<close>

theorem not_found_same_message:
  assumes "falsy (map_option trim (catalogPath preferences))"
    and "fs_access w (baseDir_of env) = Some e"
    and "code_of e = Some ''ENOENT''"
    and "fs_access w' (baseDir_of env) = None"
    and "fs_readdir w' (baseDir_of env) = Inr entries"
    and "fst (scanEntries env (baseDir_of env) entries []
           (emit (Readdir (baseDir_of env)) (emit (Access (baseDir_of env)) w'))) = Inr []"
  shows "fst (resolveCatalog env preferences w) =
           Inl (Error ''catalog.db not found. Launch Logos once, then try again. You may need to grant Raycast Full Disk Access.'') \<and>
         fst (resolveCatalog env preferences w') = fst (resolveCatalog env preferences w)"
  using resolveCatalog_base_missing[OF assms(1,2,3)] resolveCatalog_no_candidates[OF assms(1,4,5,6)]
  by simp

theorem not_found_same_message_witness:
  "fst (resolveCatalog exampleEnv noOverride baseMissingWorld) =
     Inl (Error ''catalog.db not found. Launch Logos once, then try again. You may need to grant Raycast Full Disk Access.'') \<and>
   fst (resolveCatalog exampleEnv noOverride emptyBaseWorld) =
     fst (resolveCatalog exampleEnv noOverride baseMissingWorld)"
proof -
  let ?base = "''/Users/me/Library/Application Support/Logos4/Data''"
  have base: "baseDir_of exampleEnv = ?base" by code_simp
  have 1: "falsy (map_option trim (catalogPath noOverride))"
    by (simp add: noOverride_def falsy_def)
  have 2: "fs_access baseMissingWorld (baseDir_of exampleEnv) = Some ENOENT"
    by (simp add: baseMissingWorld_def)
  have 3: "code_of ENOENT = Some ''ENOENT''" by (simp add: ENOENT_def)
  have 4: "fs_access emptyBaseWorld (baseDir_of exampleEnv) = None"
    unfolding base by (simp add: emptyBaseWorld_def exampleWorld_def)
  have 5: "fs_readdir emptyBaseWorld (baseDir_of exampleEnv) = Inr []"
    by (simp add: emptyBaseWorld_def)
  have 6: "fst (scanEntries exampleEnv (baseDir_of exampleEnv) []  []
           (emit (Readdir (baseDir_of exampleEnv)) (emit (Access (baseDir_of exampleEnv)) emptyBaseWorld))) = Inr []"
    by simp
  show ?thesis by (rule not_found_same_message[OF 1 2 3 4 5 6])
qed

text \<open>
  C9 as stated fails: the message for a missing base directory is not more specific than
  the message for an empty one; the two are the same text.
\<close>

theorem specific_message_counterexample:
  "fst (resolveCatalog exampleEnv noOverride baseMissingWorld) =
     Inl (Error ''catalog.db not found. Launch Logos once, then try again. You may need to grant Raycast Full Disk Access.'') \<and>
   fst (resolveCatalog exampleEnv noOverride emptyBaseWorld) =
     Inl (Error ''catalog.db not found. Launch Logos once, then try again. You may need to grant Raycast Full Disk Access.'')"
  by code_simp

subsection \<open>Search\<close>



subsection \<open>The cache and the load\<close>

lemma checkPayload_wellShaped:
  assumes "map_of kvs ''resources'' = Some (JArray rs)"
    and "map_of kvs ''dbPath'' = Some (JString p)"
    and "map_of kvs ''mtimeMs'' = Some (JNumber m)"
  shows "checkPayload (JObject kvs) =
    Inr (Some \<lparr> CachePayload.dbPath = p, CachePayload.mtimeMs = m, CachePayload.resources = rs \<rparr>)"
  using assms by (simp add: checkPayload_def)

lemma readCache_wellShaped:
  assumes "fs_readFile w cachePath = Inr contents"
    and "JSON_parse env contents = Inr (JObject kvs)"
    and "map_of kvs ''resources'' = Some (JArray rs)"
    and "map_of kvs ''dbPath'' = Some (JString p)"
    and "map_of kvs ''mtimeMs'' = Some (JNumber m)"
  shows "readCache env cachePath w =
    (Some \<lparr> CachePayload.dbPath = p, CachePayload.mtimeMs = m, CachePayload.resources = rs \<rparr>,
     emit (ReadFile cachePath) w)"
  using assms(1,2) checkPayload_wellShaped[OF assms(3,4,5)]
  by (simp add: readCache_def Let_def)

lemma loadCatalog_hit:
  assumes "resolveCatalog env preferences w = (Inr info, w1)"
    and "readCache env (cachePath_of env) w1 = (Some c, w2)"
    and "CachePayload.dbPath c = path info"
    and "CachePayload.mtimeMs c = CatalogInfo.mtimeMs info"
  shows "loadCatalog env preferences False w =
    (Inr \<lparr> resources = CachePayload.resources c, dbPath = path info \<rparr>, w2)"
  using assms by (simp add: loadCatalog_def Let_def fresh_def)


lemma readCache_Some:
  "fst (readCache env cachePath w) = Some c \<Longrightarrow>
   snd (readCache env cachePath w) = emit (ReadFile cachePath) w"
  by (auto simp: readCache_def Let_def split: sum.splits)

lemma writeCache_written:
  assumes "fs_mkdir w (path_dirname env cachePath) = None"
    and "fs_writeFile w cachePath = None"
  shows "fs_readFile (writeCache env cachePath payload w) cachePath =
           Inr (JSON_stringify env (CachePayload_json payload)) \<and>
         trace (writeCache env cachePath payload w) =
           trace w @ [Mkdir (path_dirname env cachePath),
                      WriteFile cachePath (JSON_stringify env (CachePayload_json payload))]"
  using assms by (simp add: writeCache_def Let_def)


lemma checkPayload_Some_wellShaped:
  "checkPayload parsed = Inr (Some c) \<Longrightarrow> wellShaped parsed"
  by (cases parsed)
     (auto simp: checkPayload_def wellShaped_def split: option.splits json.splits)

lemma readCache_fault:
  assumes "cacheFault env cachePath w"
  shows "fst (readCache env cachePath w) = None"
proof (cases "fs_readFile w cachePath")
  case (Inl e)
  then show ?thesis by (simp add: readCache_def Let_def)
next
  case (Inr contents)
  show ?thesis
  proof (cases "JSON_parse env contents")
    case (Inl e)
    with Inr show ?thesis by (simp add: readCache_def Let_def)
  next
    case parsed: (Inr parsed)
    with Inr assms have ns: "\<not> wellShaped parsed" by (simp add: cacheFault_def)
    show ?thesis
    proof (cases "checkPayload parsed")
      case (Inl e)
      with Inr parsed show ?thesis by (simp add: readCache_def Let_def)
    next
      case cp: (Inr cached)
      with ns checkPayload_Some_wellShaped[of parsed] have "cached = None"
        by (cases cached) auto
      with Inr parsed cp show ?thesis by (simp add: readCache_def Let_def)
    qed
  qed
qed

lemma readCache_keeps_files: "fs_readFile (snd (readCache env cachePath w)) = fs_readFile w"
  by (simp add: readCache_def readCache_catch_def Let_def split: sum.splits)

lemma readCatalogDatabase_fst:
  "fs_readFile w = fs_readFile w' \<Longrightarrow>
   fst (readCatalogDatabase env p w) = fst (readCatalogDatabase env p w')"
  by (simp add: readCatalogDatabase_def split: sum.splits)

lemma loadCatalog_miss:
  assumes "resolveCatalog env preferences w = (Inr info, w1)"
    and "forceRefresh \<or> \<not> fresh (fst (readCache env (cachePath_of env) w1)) info"
    and "readCatalogDatabase env (path info)
           (if forceRefresh then w1 else snd (readCache env (cachePath_of env) w1)) = (r, w3)"
  shows "loadCatalog env preferences forceRefresh w =
           (case r of
              Inl e \<Rightarrow> (Inl e, w3)
            | Inr rows \<Rightarrow>
                (Inr \<lparr> resources = map ResourceRow_json rows, dbPath = path info \<rparr>,
                 writeCache env (cachePath_of env)
                   \<lparr> CachePayload.dbPath = path info,
                     CachePayload.mtimeMs = CatalogInfo.mtimeMs info,
                     CachePayload.resources = map ResourceRow_json rows \<rparr> w3))"
proof (cases forceRefresh)
  case True
  with assms(3) have "readCatalogDatabase env (path info) w1 = (r, w3)" by simp
  with True assms(1) show ?thesis
    by (simp add: loadCatalog_def Let_def fresh_def split: sum.splits)
next
  case False
  obtain cached w2 where rc: "readCache env (cachePath_of env) w1 = (cached, w2)"
    by (cases "readCache env (cachePath_of env) w1")
  with False assms(3) have db: "readCatalogDatabase env (path info) w2 = (r, w3)" by simp
  from False assms(2) rc have nf: "\<not> fresh cached info" by simp
  from False assms(1) rc nf db show ?thesis
    by (simp add: loadCatalog_def Let_def split: sum.splits)
qed

lemma loadCatalog_miss_fst:
  assumes "resolveCatalog env preferences w = (Inr info, w1)"
    and "forceRefresh \<or> \<not> fresh (fst (readCache env (cachePath_of env) w1)) info"
  shows "fst (loadCatalog env preferences forceRefresh w) =
           (case fst (readCatalogDatabase env (path info) w1) of
              Inl e \<Rightarrow> Inl e
            | Inr rows \<Rightarrow> Inr \<lparr> resources = map ResourceRow_json rows, dbPath = path info \<rparr>)"
proof -
  let ?w2 = "if forceRefresh then w1 else snd (readCache env (cachePath_of env) w1)"
  obtain r w3 where db: "readCatalogDatabase env (path info) ?w2 = (r, w3)"
    by (cases "readCatalogDatabase env (path info) ?w2")
  have "fs_readFile ?w2 = fs_readFile w1" by (simp add: readCache_keeps_files)
  from readCatalogDatabase_fst[OF this, of env "path info"] db
  have "fst (readCatalogDatabase env (path info) w1) = r" by simp
  with loadCatalog_miss[OF assms db] show ?thesis by (simp split: sum.splits)
qed

lemma withWriteFailures_fs [simp]:
  "fs_access (withWriteFailures mk wr w) = fs_access w"
  "fs_stat (withWriteFailures mk wr w) = fs_stat w"
  "fs_readdir (withWriteFailures mk wr w) = fs_readdir w"
  "fs_readFile (withWriteFailures mk wr w) = fs_readFile w"
  "emit e (withWriteFailures mk wr w) = withWriteFailures mk wr (emit e w)"
  by (simp_all add: withWriteFailures_def emit_def)

lemma pathExists_writeFailures:
  "pathExists target (withWriteFailures mk wr w) =
     apsnd (withWriteFailures mk wr) (pathExists target w)"
  by (simp add: pathExists_def split: option.splits)

lemma scanEntries_writeFailures:
  "scanEntries env baseDir entries candidates (withWriteFailures mk wr w) =
     apsnd (withWriteFailures mk wr) (scanEntries env baseDir entries candidates w)"
proof (induction entries arbitrary: candidates w)
  case Nil
  show ?case by simp
next
  case (Cons entry entries)
  obtain r w1 where pe: "pathExists (catalogCandidate env baseDir entry) w = (r, w1)"
    by (cases "pathExists (catalogCandidate env baseDir entry) w")
  then have pe': "pathExists (catalogCandidate env baseDir entry) (withWriteFailures mk wr w) =
      (r, withWriteFailures mk wr w1)"
    by (simp add: pathExists_writeFailures)
  show ?case
    by (simp add: Let_def pe pe' Cons.IH split: sum.splits bool.splits)
qed

lemma resolveCatalog_writeFailures:
  "resolveCatalog env preferences (withWriteFailures mk wr w) =
     apsnd (withWriteFailures mk wr) (resolveCatalog env preferences w)"
proof -
  obtain r w1 where pe: "pathExists (baseDir_of env) w = (r, w1)"
    by (cases "pathExists (baseDir_of env) w")
  then have pe': "pathExists (baseDir_of env) (withWriteFailures mk wr w) =
      (r, withWriteFailures mk wr w1)"
    by (simp add: pathExists_writeFailures)
  obtain r2 w2 where po:
    "pathExists (expandTilde env (the (map_option trim (catalogPath preferences)))) w = (r2, w2)"
    by (cases "pathExists (expandTilde env (the (map_option trim (catalogPath preferences)))) w")
  then have po':
    "pathExists (expandTilde env (the (map_option trim (catalogPath preferences))))
       (withWriteFailures mk wr w) = (r2, withWriteFailures mk wr w2)"
    by (simp add: pathExists_writeFailures)
  have w1: "w1 = emit (Access (baseDir_of env)) w"
    using pe by (auto simp: pathExists_def split: option.splits if_splits)
  show ?thesis
    unfolding resolveCatalog_def Let_def pe pe' po po'
    by (simp add: scanEntries_writeFailures w1 split: sum.splits bool.splits prod.splits)
qed

lemma readCache_writeFailures:
  "readCache env cachePath (withWriteFailures mk wr w) =
     apsnd (withWriteFailures mk wr) (readCache env cachePath w)"
  by (simp add: readCache_def readCache_catch_def Let_def split: sum.splits)

lemma fresh_writeFailures:
  "fresh (fst (readCache env cachePath (withWriteFailures mk wr w))) info =
   fresh (fst (readCache env cachePath w)) info"
  by (simp add: readCache_writeFailures)

lemma loadCatalog_writeFailures:
  "fst (loadCatalog env preferences forceRefresh (withWriteFailures mk wr w)) =
   fst (loadCatalog env preferences forceRefresh w)"
proof -
  let ?U = "withWriteFailures mk wr"
  obtain r w1 where res: "resolveCatalog env preferences w = (r, w1)"
    by (cases "resolveCatalog env preferences w")
  then have res': "resolveCatalog env preferences (?U w) = (r, ?U w1)"
    by (simp add: resolveCatalog_writeFailures)
  show ?thesis
  proof (cases r)
    case (Inl e)
    with res res' show ?thesis by (simp add: loadCatalog_def)
  next
    case (Inr info)
    show ?thesis
    proof (cases "forceRefresh \<or> \<not> fresh (fst (readCache env (cachePath_of env) w1)) info")
      case True
      then have "forceRefresh \<or> \<not> fresh (fst (readCache env (cachePath_of env) (?U w1))) info"
        by (simp add: fresh_writeFailures)
      from loadCatalog_miss_fst[OF res'[unfolded Inr] this]
           loadCatalog_miss_fst[OF res[unfolded Inr] True]
           readCatalogDatabase_fst[of "?U w1" w1 env "path info"]
      show ?thesis by simp
    next
      case False
      then obtain c where c: "fst (readCache env (cachePath_of env) w1) = Some c"
        "CachePayload.dbPath c = path info" "CachePayload.mtimeMs c = CatalogInfo.mtimeMs info"
        and nf: "\<not> forceRefresh"
        by (auto simp: fresh_def split: option.splits)
      obtain w2 where rc: "readCache env (cachePath_of env) w1 = (Some c, w2)"
        using c(1) by (cases "readCache env (cachePath_of env) w1") simp
      then have rc': "readCache env (cachePath_of env) (?U w1) = (Some c, ?U w2)"
        by (simp add: readCache_writeFailures)
      from loadCatalog_hit[OF res[unfolded Inr] rc c(2,3)]
           loadCatalog_hit[OF res'[unfolded Inr] rc' c(2,3)] nf
      show ?thesis by simp
    qed
  qed
qed

lemma writeCache_contents:
  assumes "fs_mkdir w (path_dirname env cachePath) = None"
    and "fs_writeFile w cachePath = None"
  shows "fs_readFile (writeCache env cachePath payload w) cachePath =
           Inr (JSON_stringify env
             (JObject [(''dbPath'', JString (CachePayload.dbPath payload)),
                       (''mtimeMs'', JNumber (CachePayload.mtimeMs payload)),
                       (''resources'', JArray (CachePayload.resources payload))]))"
    and "trace (writeCache env cachePath payload w) =
           trace w @ [Mkdir (path_dirname env cachePath),
                      WriteFile cachePath (JSON_stringify env
             (JObject [(''dbPath'', JString (CachePayload.dbPath payload)),
                       (''mtimeMs'', JNumber (CachePayload.mtimeMs payload)),
                       (''resources'', JArray (CachePayload.resources payload))]))]"
  using assms by (simp_all add: writeCache_def CachePayload_json_def Let_def)

lemma readCache_after_write:
  assumes "fs_mkdir w (path_dirname env cachePath) = None"
    and "fs_writeFile w cachePath = None"
    and "JSON_parse env (JSON_stringify env
             (JObject [(''dbPath'', JString (CachePayload.dbPath payload)),
                       (''mtimeMs'', JNumber (CachePayload.mtimeMs payload)),
                       (''resources'', JArray (CachePayload.resources payload))])) =
         Inr (JObject [(''dbPath'', JString (CachePayload.dbPath payload)),
                       (''mtimeMs'', JNumber (CachePayload.mtimeMs payload)),
                       (''resources'', JArray (CachePayload.resources payload))])"
  shows "fst (readCache env cachePath (writeCache env cachePath payload w)) =
           Some \<lparr> CachePayload.dbPath = CachePayload.dbPath payload,
                  CachePayload.mtimeMs = CachePayload.mtimeMs payload,
                  CachePayload.resources = CachePayload.resources payload \<rparr>"
proof -
  let ?kvs = "[(''dbPath'', JString (CachePayload.dbPath payload)),
               (''mtimeMs'', JNumber (CachePayload.mtimeMs payload)),
               (''resources'', JArray (CachePayload.resources payload))]"
  have 1: "map_of ?kvs ''resources'' = Some (JArray (CachePayload.resources payload))" by simp
  have 2: "map_of ?kvs ''dbPath'' = Some (JString (CachePayload.dbPath payload))" by simp
  have 3: "map_of ?kvs ''mtimeMs'' = Some (JNumber (CachePayload.mtimeMs payload))" by simp
  from readCache_wellShaped[OF writeCache_contents(1)[OF assms(1,2)] assms(3) 1 2 3]
  show ?thesis by simp
qed

text \<open>
  C3. After the catalog is resolved, the load returns the records of the cache exactly
  when the refresh is not forced and \<open>readCache\<close> returns a payload whose \<open>dbPath\<close> and
  \<open>mtimeMs\<close> both equal those of the resolved catalog; then the only further call to the
  outside is the read of the cache file. In every other case (a forced refresh, which does
  not read the cache, no payload, another path, or another time however close) the load runs
  the extraction on the database: its failure is the failure of the load, and its records
  are returned and handed to \<open>writeCache\<close> with the path and time of the resolved catalog.
  When the write does not fail, the load ends with the cache file holding the serialised
  object of the path and time of the resolved catalog and the returned records, written
  after the directory was made; and when \<open>JSON.parse\<close> gives that object back from its
  text, \<open>readCache\<close> after the load returns exactly that path, time and records.
\<close>

theorem load_uses_cache_iff:
  assumes "resolveCatalog env preferences w = (Inr info, w1)"
  shows
    "(\<not> forceRefresh \<and>
      (\<exists>c. fst (readCache env (cachePath_of env) w1) = Some c \<and>
           CachePayload.dbPath c = path info \<and>
           CachePayload.mtimeMs c = CatalogInfo.mtimeMs info) \<longrightarrow>
        (\<exists>c. fst (readCache env (cachePath_of env) w1) = Some c \<and>
             loadCatalog env preferences forceRefresh w =
               (Inr \<lparr> resources = CachePayload.resources c, dbPath = path info \<rparr>,
                emit (ReadFile (cachePath_of env)) w1))) \<and>
     (\<not> (\<not> forceRefresh \<and>
         (\<exists>c. fst (readCache env (cachePath_of env) w1) = Some c \<and>
              CachePayload.dbPath c = path info \<and>
              CachePayload.mtimeMs c = CatalogInfo.mtimeMs info)) \<longrightarrow>
        (\<forall>w2 r w3.
           w2 = (if forceRefresh then w1 else snd (readCache env (cachePath_of env) w1)) \<and>
           readCatalogDatabase env (path info) w2 = (r, w3) \<longrightarrow>
           loadCatalog env preferences forceRefresh w =
             (case r of
                Inl e \<Rightarrow> (Inl e, w3)
              | Inr rows \<Rightarrow>
                  (Inr \<lparr> resources = map ResourceRow_json rows, dbPath = path info \<rparr>,
                   writeCache env (cachePath_of env)
                     \<lparr> CachePayload.dbPath = path info,
                       CachePayload.mtimeMs = CatalogInfo.mtimeMs info,
                       CachePayload.resources = map ResourceRow_json rows \<rparr> w3)))) \<and>
     (\<forall>rows w3.
        (forceRefresh \<or>
         \<not> (\<exists>c. fst (readCache env (cachePath_of env) w1) = Some c \<and>
               CachePayload.dbPath c = path info \<and>
               CachePayload.mtimeMs c = CatalogInfo.mtimeMs info)) \<and>
        readCatalogDatabase env (path info)
          (if forceRefresh then w1 else snd (readCache env (cachePath_of env) w1)) =
          (Inr rows, w3) \<and>
        fs_mkdir w3 (path_dirname env (cachePath_of env)) = None \<and>
        fs_writeFile w3 (cachePath_of env) = None \<longrightarrow>
        fs_readFile (snd (loadCatalog env preferences forceRefresh w)) (cachePath_of env) =
          Inr (JSON_stringify env
                 (JObject [(''dbPath'', JString (path info)),
                          (''mtimeMs'', JNumber (CatalogInfo.mtimeMs info)),
                          (''resources'', JArray (map ResourceRow_json rows))])) \<and>
        trace (snd (loadCatalog env preferences forceRefresh w)) =
          trace w3 @
          [Mkdir (path_dirname env (cachePath_of env)),
           WriteFile (cachePath_of env)
             (JSON_stringify env
                 (JObject [(''dbPath'', JString (path info)),
                          (''mtimeMs'', JNumber (CatalogInfo.mtimeMs info)),
                          (''resources'', JArray (map ResourceRow_json rows))]))] \<and>
        (JSON_parse env
           (JSON_stringify env
                 (JObject [(''dbPath'', JString (path info)),
                          (''mtimeMs'', JNumber (CatalogInfo.mtimeMs info)),
                          (''resources'', JArray (map ResourceRow_json rows))])) =
         Inr (JObject [(''dbPath'', JString (path info)),
                          (''mtimeMs'', JNumber (CatalogInfo.mtimeMs info)),
                          (''resources'', JArray (map ResourceRow_json rows))]) \<longrightarrow>
         fst (readCache env (cachePath_of env)
                (snd (loadCatalog env preferences forceRefresh w))) =
           Some \<lparr> CachePayload.dbPath = path info,
                  CachePayload.mtimeMs = CatalogInfo.mtimeMs info,
                  CachePayload.resources = map ResourceRow_json rows \<rparr>))"
proof (intro conjI impI allI)
  assume hit: "\<not> forceRefresh \<and>
      (\<exists>c. fst (readCache env (cachePath_of env) w1) = Some c \<and>
           CachePayload.dbPath c = path info \<and>
           CachePayload.mtimeMs c = CatalogInfo.mtimeMs info)"
  then obtain c where c: "fst (readCache env (cachePath_of env) w1) = Some c"
    "CachePayload.dbPath c = path info" "CachePayload.mtimeMs c = CatalogInfo.mtimeMs info"
    by blast
  from c(1) readCache_Some[OF c(1)]
  have rc: "readCache env (cachePath_of env) w1 = (Some c, emit (ReadFile (cachePath_of env)) w1)"
    by (cases "readCache env (cachePath_of env) w1") simp
  from hit loadCatalog_hit[OF assms rc c(2,3)] c(1)
  show "\<exists>c. fst (readCache env (cachePath_of env) w1) = Some c \<and>
             loadCatalog env preferences forceRefresh w =
               (Inr \<lparr> resources = CachePayload.resources c, dbPath = path info \<rparr>,
                emit (ReadFile (cachePath_of env)) w1)"
    by auto
next
  fix w2 r w3
  assume miss: "\<not> (\<not> forceRefresh \<and>
         (\<exists>c. fst (readCache env (cachePath_of env) w1) = Some c \<and>
              CachePayload.dbPath c = path info \<and>
              CachePayload.mtimeMs c = CatalogInfo.mtimeMs info))"
    and run: "w2 = (if forceRefresh then w1 else snd (readCache env (cachePath_of env) w1)) \<and>
           readCatalogDatabase env (path info) w2 = (r, w3)"
  from miss have "forceRefresh \<or> \<not> fresh (fst (readCache env (cachePath_of env) w1)) info"
    by (auto simp: fresh_def split: option.splits)
  moreover from run have "readCatalogDatabase env (path info)
      (if forceRefresh then w1 else snd (readCache env (cachePath_of env) w1)) = (r, w3)"
    by auto
  ultimately show "loadCatalog env preferences forceRefresh w =
             (case r of
                Inl e \<Rightarrow> (Inl e, w3)
              | Inr rows \<Rightarrow>
                  (Inr \<lparr> resources = map ResourceRow_json rows, dbPath = path info \<rparr>,
                   writeCache env (cachePath_of env)
                     \<lparr> CachePayload.dbPath = path info,
                       CachePayload.mtimeMs = CatalogInfo.mtimeMs info,
                       CachePayload.resources = map ResourceRow_json rows \<rparr> w3))"
    by (rule loadCatalog_miss[OF assms])
next
  fix rows and w3 :: World
  let ?payload = "\<lparr> CachePayload.dbPath = path info,
                   CachePayload.mtimeMs = CatalogInfo.mtimeMs info,
                   CachePayload.resources = map ResourceRow_json rows \<rparr>"
  let ?J = "JObject [(''dbPath'', JString (path info)),
                     (''mtimeMs'', JNumber (CatalogInfo.mtimeMs info)),
                     (''resources'', JArray (map ResourceRow_json rows))]"
  assume a: "(forceRefresh \<or>
         \<not> (\<exists>c. fst (readCache env (cachePath_of env) w1) = Some c \<and>
               CachePayload.dbPath c = path info \<and>
               CachePayload.mtimeMs c = CatalogInfo.mtimeMs info)) \<and>
        readCatalogDatabase env (path info)
          (if forceRefresh then w1 else snd (readCache env (cachePath_of env) w1)) =
          (Inr rows, w3) \<and>
        fs_mkdir w3 (path_dirname env (cachePath_of env)) = None \<and>
        fs_writeFile w3 (cachePath_of env) = None"
  then have nf: "forceRefresh \<or> \<not> fresh (fst (readCache env (cachePath_of env) w1)) info"
    by (auto simp: fresh_def split: option.splits)
  from a have db: "readCatalogDatabase env (path info)
      (if forceRefresh then w1 else snd (readCache env (cachePath_of env) w1)) = (Inr rows, w3)"
    and mk: "fs_mkdir w3 (path_dirname env (cachePath_of env)) = None"
    and wr: "fs_writeFile w3 (cachePath_of env) = None"
    by blast+
  from loadCatalog_miss[OF assms nf db]
  have snd: "snd (loadCatalog env preferences forceRefresh w) =
      writeCache env (cachePath_of env) ?payload w3"
    by simp
  show "fs_readFile (snd (loadCatalog env preferences forceRefresh w)) (cachePath_of env) =
          Inr (JSON_stringify env ?J)"
    unfolding snd using writeCache_contents(1)[OF mk wr, of ?payload] by simp
  show "trace (snd (loadCatalog env preferences forceRefresh w)) =
          trace w3 @
          [Mkdir (path_dirname env (cachePath_of env)),
           WriteFile (cachePath_of env) (JSON_stringify env ?J)]"
    unfolding snd using writeCache_contents(2)[OF mk wr, of ?payload] by simp
  assume "JSON_parse env (JSON_stringify env ?J) = Inr ?J"
  then show "fst (readCache env (cachePath_of env)
                (snd (loadCatalog env preferences forceRefresh w))) =
           Some ?payload"
    unfolding snd using readCache_after_write[OF mk wr, of ?payload] by simp
qed

theorem load_uses_cache_iff_witness:
  "fst (loadCatalog exampleEnv noOverride False (withCacheFile (printJson cachedJson) exampleWorld)) =
     Inr \<lparr> resources = staleRecords,
           dbPath = ''/Users/me/Library/Application Support/Logos4/Data/b/LibraryCatalog/catalog.db'' \<rparr> \<and>
   trace (snd (loadCatalog exampleEnv noOverride False
                 (withCacheFile (printJson cachedJson) exampleWorld))) =
     trace (snd (resolveCatalog exampleEnv noOverride
                   (withCacheFile (printJson cachedJson) exampleWorld))) @
     [ReadFile ''/support/catalog-cache.json''] \<and>
   fst (loadCatalog exampleEnv noOverride True (withCacheFile (printJson cachedJson) exampleWorld)) =
     Inr \<lparr> resources = threeBooksJson,
           dbPath = ''/Users/me/Library/Application Support/Logos4/Data/b/LibraryCatalog/catalog.db'' \<rparr> \<and>
   fs_readFile (snd (loadCatalog exampleEnv noOverride True
                       (withCacheFile (printJson cachedJson) exampleWorld)))
       ''/support/catalog-cache.json'' =
     Inr (printJson freshJson) \<and>
   fst (readCache exampleEnv ''/support/catalog-cache.json''
          (snd (loadCatalog exampleEnv noOverride True
                  (withCacheFile (printJson cachedJson) exampleWorld)))) =
     Some \<lparr> CachePayload.dbPath =
              ''/Users/me/Library/Application Support/Logos4/Data/b/LibraryCatalog/catalog.db'',
            CachePayload.mtimeMs = 200,
            CachePayload.resources = threeBooksJson \<rparr> \<and>
   fst (loadCatalog exampleEnv noOverride False (withCacheFile (printJson cachedJson) touchedWorld)) =
     Inr \<lparr> resources = threeBooksJson,
           dbPath = ''/Users/me/Library/Application Support/Logos4/Data/b/LibraryCatalog/catalog.db'' \<rparr>"
proof -
  let ?w = "withCacheFile (printJson cachedJson) exampleWorld"
  let ?db = "''/Users/me/Library/Application Support/Logos4/Data/b/LibraryCatalog/catalog.db''"
  let ?info = "\<lparr> path = ?db, mtimeMs = 200 \<rparr>"
  let ?w1 = "snd (resolveCatalog exampleEnv noOverride ?w)"
  let ?c = "\<lparr> CachePayload.dbPath = ?db, CachePayload.mtimeMs = 200,
             CachePayload.resources = staleRecords \<rparr>"
  let ?rows = "[\<lparr> id_of = ''1'', title = ''Acts'', author = None, abbrev = None \<rparr>,
                \<lparr> id_of = ''G'', title = ''Genesis'', author = Some ''Moses'', abbrev = None \<rparr>,
                \<lparr> id_of = ''2'', title = ''Romans'', author = Some ''Paul'', abbrev = None \<rparr>]"
  let ?w3 = "snd (readCatalogDatabase exampleEnv ?db ?w1)"
  let ?J = "JObject [(''dbPath'', JString (path ?info)),
                     (''mtimeMs'', JNumber (CatalogInfo.mtimeMs ?info)),
                     (''resources'', JArray (map ResourceRow_json ?rows))]"
  have "fst (resolveCatalog exampleEnv noOverride ?w) = Inr ?info" by code_simp
  then have 1: "resolveCatalog exampleEnv noOverride ?w = (Inr ?info, ?w1)"
    by (cases "resolveCatalog exampleEnv noOverride ?w") simp
  have cp: "cachePath_of exampleEnv = ''/support/catalog-cache.json''" by code_simp
  have rc: "fst (readCache exampleEnv (cachePath_of exampleEnv) ?w1) = Some ?c"
    by code_simp
  from load_uses_cache_iff[OF 1, of False] rc
  have hit: "loadCatalog exampleEnv noOverride False ?w =
      (Inr \<lparr> resources = CachePayload.resources ?c, dbPath = path ?info \<rparr>,
       emit (ReadFile (cachePath_of exampleEnv)) ?w1)"
    by simp
  have forced: "fst (loadCatalog exampleEnv noOverride True ?w) =
      Inr \<lparr> resources = threeBooksJson, dbPath = ?db \<rparr>"
    by code_simp
  have "fst (readCatalogDatabase exampleEnv ?db ?w1) = Inr ?rows" by code_simp
  then have db: "readCatalogDatabase exampleEnv (path ?info) (if True then ?w1
      else snd (readCache exampleEnv (cachePath_of exampleEnv) ?w1)) = (Inr ?rows, ?w3)"
    by (cases "readCatalogDatabase exampleEnv ?db ?w1") simp
  have mk: "fs_mkdir ?w3 (path_dirname exampleEnv (cachePath_of exampleEnv)) = None"
    by code_simp
  have wr: "fs_writeFile ?w3 (cachePath_of exampleEnv) = None"
    by code_simp
  have ser: "JSON_stringify exampleEnv ?J = printJson freshJson" by code_simp
  have inv: "JSON_parse exampleEnv (JSON_stringify exampleEnv ?J) = Inr ?J" by code_simp
  have recs: "map ResourceRow_json ?rows = threeBooksJson" by code_simp
  from load_uses_cache_iff[OF 1, of True] db mk wr
  have written: "fs_readFile (snd (loadCatalog exampleEnv noOverride True ?w))
        (cachePath_of exampleEnv) = Inr (JSON_stringify exampleEnv ?J)"
    and again: "JSON_parse exampleEnv (JSON_stringify exampleEnv ?J) = Inr ?J \<longrightarrow>
        fst (readCache exampleEnv (cachePath_of exampleEnv)
               (snd (loadCatalog exampleEnv noOverride True ?w))) =
          Some \<lparr> CachePayload.dbPath = path ?info,
                 CachePayload.mtimeMs = CatalogInfo.mtimeMs ?info,
                 CachePayload.resources = map ResourceRow_json ?rows \<rparr>"
    by blast+
  from written have stored: "fs_readFile (snd (loadCatalog exampleEnv noOverride True ?w))
        ''/support/catalog-cache.json'' = Inr (printJson freshJson)"
    unfolding ser cp .
  from again inv have reread: "fst (readCache exampleEnv ''/support/catalog-cache.json''
        (snd (loadCatalog exampleEnv noOverride True ?w))) =
      Some \<lparr> CachePayload.dbPath = ?db, CachePayload.mtimeMs = 200,
             CachePayload.resources = threeBooksJson \<rparr>"
    unfolding recs cp by simp
  have touched: "fst (loadCatalog exampleEnv noOverride False
        (withCacheFile (printJson cachedJson) touchedWorld)) =
      Inr \<lparr> resources = threeBooksJson, dbPath = ?db \<rparr>"
    by code_simp
  from hit have h1: "fst (loadCatalog exampleEnv noOverride False ?w) =
      Inr \<lparr> resources = staleRecords, dbPath = ?db \<rparr>"
    by simp
  from hit have h2: "trace (snd (loadCatalog exampleEnv noOverride False ?w)) =
      trace ?w1 @ [ReadFile ''/support/catalog-cache.json'']"
    unfolding cp by simp
  from h1 h2 forced stored reread touched show ?thesis by blast
qed

text \<open>
  C4. The faults of the cache never become faults of the load. When the cache file is
  missing or unreadable, when its text is not JSON, or when the parsed value has not the
  expected shape, \<open>readCache\<close> returns nothing, and the unforced load has the outcome of
  the forced one. Whichever cache writes fail, the outcome of the load is the same; and when
  the extraction returns records, the forced load returns them.
\<close>

theorem cache_faults_absorbed:
  "(cacheFault env cachePath w \<longrightarrow> fst (readCache env cachePath w) = None) \<and>
   (\<forall>info w1. resolveCatalog env preferences w = (Inr info, w1) \<and>
       cacheFault env (cachePath_of env) w1 \<longrightarrow>
       fst (loadCatalog env preferences False w) = fst (loadCatalog env preferences True w)) \<and>
   fst (loadCatalog env preferences forceRefresh (withWriteFailures mk wr w)) =
     fst (loadCatalog env preferences forceRefresh w) \<and>
   (\<forall>info w1 rows w3. resolveCatalog env preferences w = (Inr info, w1) \<and>
       readCatalogDatabase env (path info) w1 = (Inr rows, w3) \<longrightarrow>
       fst (loadCatalog env preferences True w) =
         Inr \<lparr> resources = map ResourceRow_json rows, dbPath = path info \<rparr>)"
proof (intro conjI allI impI)
  assume "cacheFault env cachePath w"
  then show "fst (readCache env cachePath w) = None" by (rule readCache_fault)
next
  fix info w1
  assume a: "resolveCatalog env preferences w = (Inr info, w1) \<and>
       cacheFault env (cachePath_of env) w1"
  then have "fst (readCache env (cachePath_of env) w1) = None"
    using readCache_fault by blast
  then have nf: "\<not> fresh (fst (readCache env (cachePath_of env) w1)) info"
    by (simp add: fresh_def)
  from a have res: "resolveCatalog env preferences w = (Inr info, w1)" by simp
  from loadCatalog_miss_fst[OF res, of False] nf loadCatalog_miss_fst[OF res, of True]
  show "fst (loadCatalog env preferences False w) = fst (loadCatalog env preferences True w)"
    by simp
next
  show "fst (loadCatalog env preferences forceRefresh (withWriteFailures mk wr w)) =
     fst (loadCatalog env preferences forceRefresh w)"
    by (rule loadCatalog_writeFailures)
next
  fix info w1 rows w3
  assume a: "resolveCatalog env preferences w = (Inr info, w1) \<and>
       readCatalogDatabase env (path info) w1 = (Inr rows, w3)"
  then have res: "resolveCatalog env preferences w = (Inr info, w1)" by simp
  from loadCatalog_miss_fst[OF res, of True] a
  show "fst (loadCatalog env preferences True w) =
         Inr \<lparr> resources = map ResourceRow_json rows, dbPath = path info \<rparr>"
    by simp
qed

theorem cache_faults_absorbed_witness:
  "fst (readCache exampleEnv ''/support/catalog-cache.json''
         (withCacheFile ''{broken'' exampleWorld)) = None \<and>
   fst (loadCatalog exampleEnv noOverride False (withCacheFile ''{broken'' exampleWorld)) =
     fst (loadCatalog exampleEnv noOverride True (withCacheFile ''{broken'' exampleWorld)) \<and>
   fst (loadCatalog exampleEnv noOverride False
          (withWriteFailures (\<lambda>p. None) (\<lambda>p. Some (ErrnoException ''EACCES''))
             (withCacheFile ''{broken'' exampleWorld))) =
     Inr \<lparr> resources = threeBooksJson,
           dbPath = ''/Users/me/Library/Application Support/Logos4/Data/b/LibraryCatalog/catalog.db'' \<rparr>"
proof -
  let ?w = "withCacheFile ''{broken'' exampleWorld"
  let ?db = "''/Users/me/Library/Application Support/Logos4/Data/b/LibraryCatalog/catalog.db''"
  let ?info = "\<lparr> path = ?db, mtimeMs = 200 \<rparr>"
  let ?w1 = "snd (resolveCatalog exampleEnv noOverride ?w)"
  note inst = cache_faults_absorbed[of exampleEnv _ _ noOverride False
      "\<lambda>p. None" "\<lambda>p. Some (ErrnoException ''EACCES'')"]
  have f0: "cacheFault exampleEnv ''/support/catalog-cache.json'' ?w" by code_simp
  have "fst (resolveCatalog exampleEnv noOverride ?w) = Inr ?info" by code_simp
  then have res: "resolveCatalog exampleEnv noOverride ?w = (Inr ?info, ?w1)"
    by (cases "resolveCatalog exampleEnv noOverride ?w") simp
  have f1: "cacheFault exampleEnv (cachePath_of exampleEnv) ?w1" by code_simp
  have plain: "fst (loadCatalog exampleEnv noOverride False ?w) =
      Inr \<lparr> resources = threeBooksJson, dbPath = ?db \<rparr>"
    by code_simp
  from inst[of "''/support/catalog-cache.json''" ?w] f0
  have a: "fst (readCache exampleEnv ''/support/catalog-cache.json'' ?w) = None" by blast
  from inst[of "''/support/catalog-cache.json''" ?w] res f1
  have b: "fst (loadCatalog exampleEnv noOverride False ?w) =
           fst (loadCatalog exampleEnv noOverride True ?w)" by blast
  from inst[of "''/support/catalog-cache.json''" ?w] plain
  have c: "fst (loadCatalog exampleEnv noOverride False
          (withWriteFailures (\<lambda>p. None) (\<lambda>p. Some (ErrnoException ''EACCES'')) ?w)) =
     Inr \<lparr> resources = threeBooksJson, dbPath = ?db \<rparr>" by simp
  from a b c show ?thesis by blast
qed

text \<open>
  C10. The shape test of \<open>readCache\<close> stops at the array: for every parsed object whose
  \<open>resources\<close> is an array \<open>rs\<close>, whose \<open>dbPath\<close> is a string and whose \<open>mtimeMs\<close> is a
  number, \<open>readCache\<close> returns the payload with exactly \<open>rs\<close>, whatever its elements are;
  and when path and time equal those of the resolved catalog, the unforced load returns
  \<open>rs\<close> as its records. The example returns a repeated id, an empty title, an empty id,
  titles out of order and a number in place of a record.
\<close>

theorem cache_validation_shallow:
  assumes "resolveCatalog env preferences w = (Inr info, w1)"
    and "fs_readFile w1 (cachePath_of env) = Inr contents"
    and "JSON_parse env contents = Inr (JObject kvs)"
    and "map_of kvs ''resources'' = Some (JArray rs)"
    and "map_of kvs ''dbPath'' = Some (JString p)"
    and "map_of kvs ''mtimeMs'' = Some (JNumber m)"
  shows "fst (readCache env (cachePath_of env) w1) =
           Some \<lparr> CachePayload.dbPath = p, CachePayload.mtimeMs = m, CachePayload.resources = rs \<rparr> \<and>
         (p = path info \<and> m = CatalogInfo.mtimeMs info \<longrightarrow>
            fst (loadCatalog env preferences False w) =
              Inr \<lparr> resources = rs, dbPath = path info \<rparr>)"
proof -
  note rc = readCache_wellShaped[OF assms(2-6)]
  show ?thesis
  proof (intro conjI impI)
    show "fst (readCache env (cachePath_of env) w1) =
           Some \<lparr> CachePayload.dbPath = p, CachePayload.mtimeMs = m, CachePayload.resources = rs \<rparr>"
      using rc by simp
  next
    assume "p = path info \<and> m = CatalogInfo.mtimeMs info"
    then show "fst (loadCatalog env preferences False w) =
              Inr \<lparr> resources = rs, dbPath = path info \<rparr>"
      using loadCatalog_hit[OF assms(1) rc] by simp
  qed
qed

theorem cache_validation_shallow_witness:
  "fst (loadCatalog exampleEnv noOverride False (withCacheFile (printJson cachedJson) exampleWorld)) =
     Inr \<lparr> resources =
             [JObject [(''id'', JString ''7''), (''title'', JString ''Zechariah'')],
              JObject [(''id'', JString ''7''), (''title'', JString [])],
              JObject [(''id'', JString []), (''title'', JString ''Amos'')],
              JNumber 3],
           dbPath = ''/Users/me/Library/Application Support/Logos4/Data/b/LibraryCatalog/catalog.db'' \<rparr>"
proof -
  let ?w = "withCacheFile (printJson cachedJson) exampleWorld"
  let ?db = "''/Users/me/Library/Application Support/Logos4/Data/b/LibraryCatalog/catalog.db''"
  let ?info = "\<lparr> path = ?db, mtimeMs = 200 \<rparr>"
  let ?kvs = "[(''dbPath'', JString ?db), (''mtimeMs'', JNumber 200),
               (''resources'', JArray staleRecords)]"
  have r: "fst (resolveCatalog exampleEnv noOverride ?w) = Inr ?info" by code_simp
  then have 1: "resolveCatalog exampleEnv noOverride ?w =
      (Inr ?info, snd (resolveCatalog exampleEnv noOverride ?w))"
    by (cases "resolveCatalog exampleEnv noOverride ?w") simp
  have cp: "cachePath_of exampleEnv = ''/support/catalog-cache.json''" by code_simp
  have 2: "fs_readFile (snd (resolveCatalog exampleEnv noOverride ?w)) (cachePath_of exampleEnv) =
      Inr (printJson cachedJson)"
    unfolding cp by code_simp
  have 3: "JSON_parse exampleEnv (printJson cachedJson) = Inr (JObject ?kvs)"
    by (simp add: exampleEnv_def exampleParse_def cachedJson_def)
  have 4: "map_of ?kvs ''resources'' = Some (JArray staleRecords)" by simp
  have 5: "map_of ?kvs ''dbPath'' = Some (JString ?db)" by simp
  have 6: "map_of ?kvs ''mtimeMs'' = Some (JNumber 200)" by simp
  from cache_validation_shallow[OF 1 2 3 4 5 6]
  have "fst (loadCatalog exampleEnv noOverride False ?w) =
      Inr \<lparr> resources = staleRecords, dbPath = path ?info \<rparr>"
    by simp
  then show ?thesis by (simp add: staleRecords_def)
qed

end
